theory Spec2Isabelle
  imports Complex_Main "HOL-Library.Multiset"
begin

section \<open>Errors and results\<close>

text \<open>
  Every exception of \<^verbatim>\<open>evaluate.py\<close> that a claim depends on is a value. A function that
  can raise returns \<open>error + 'a\<close>, with \<open>Inl\<close> for the exception. \<open>CollaboratorError\<close>
  stands for any exception raised inside an external collaborator (subprocess, HTTP
  client, JSON parser, the jiwer library).
\<close>

datatype error =
    KeyError string
  | ZeroDivisionError
  | StopIteration
  | IndexError
  | ValueError
  | CollaboratorError string

definition and_then :: "error + 'a \<Rightarrow> ('a \<Rightarrow> error + 'b) \<Rightarrow> error + 'b" where
  "and_then m f = (case m of Inl e \<Rightarrow> Inl e | Inr x \<Rightarrow> f x)"

text \<open>A list comprehension whose body can raise: left to right, the first exception wins.\<close>

fun traverse :: "('a \<Rightarrow> error + 'b) \<Rightarrow> 'a list \<Rightarrow> error + 'b list" where
  "traverse f [] = Inr []"
| "traverse f (x # xs) =
     (case f x of
        Inl e \<Rightarrow> Inl e
      | Inr y \<Rightarrow> (case traverse f xs of Inl e \<Rightarrow> Inl e | Inr ys \<Rightarrow> Inr (y # ys)))"

section \<open>Python strings\<close>

text \<open>
  A Python \<^verbatim>\<open>str\<close> is a sequence of code points. The model is \<open>string\<close>, each
  \<open>char\<close> read as one code point of the range U+0000..U+00FF; the classification of
  these 256 code points is Python's (\<^verbatim>\<open>str.isspace\<close>, \<^verbatim>\<open>str.isalnum\<close>,
  \<^verbatim>\<open>str.lower\<close>, and the classes \<^verbatim>\<open>\s\<close> and \<^verbatim>\<open>\w\<close> of \<^verbatim>\<open>re\<close> on \<^verbatim>\<open>str\<close> patterns).
\<close>

definition code_point :: "char \<Rightarrow> nat" where
  "code_point c = of_char c"

definition py_isspace :: "char \<Rightarrow> bool" where
  "py_isspace c =
     (let n = code_point c
      in (9 \<le> n \<and> n \<le> 13) \<or> (28 \<le> n \<and> n \<le> 32) \<or> n = 133 \<or> n = 160)"

definition py_isalnum :: "char \<Rightarrow> bool" where
  "py_isalnum c =
     (let n = code_point c
      in (48 \<le> n \<and> n \<le> 57) \<or> (65 \<le> n \<and> n \<le> 90) \<or> (97 \<le> n \<and> n \<le> 122)
         \<or> n = 170 \<or> n = 178 \<or> n = 179 \<or> n = 181 \<or> n = 185 \<or> n = 186
         \<or> (188 \<le> n \<and> n \<le> 190)
         \<or> (192 \<le> n \<and> n \<le> 214) \<or> (216 \<le> n \<and> n \<le> 246) \<or> 248 \<le> n)"

text \<open>The class \<^verbatim>\<open>\w\<close>: alphanumeric, or the underscore.\<close>

definition re_word :: "char \<Rightarrow> bool" where
  "re_word c = (py_isalnum c \<or> c = CHR ''_'')"

definition py_isupper :: "char \<Rightarrow> bool" where
  "py_isupper c =
     (let n = code_point c
      in (65 \<le> n \<and> n \<le> 90) \<or> (192 \<le> n \<and> n \<le> 222 \<and> n \<noteq> 215))"

definition lower_char :: "char \<Rightarrow> char" where
  "lower_char c = (if py_isupper c then char_of (code_point c + 32) else c)"

definition lower :: "string \<Rightarrow> string" where
  "lower s = map lower_char s"

text \<open>
  \<^verbatim>\<open>str.split()\<close> without a separator: the maximal runs of non-whitespace, in order.
  The accumulator \<open>w\<close> is the run being read.
\<close>

fun split_acc :: "string \<Rightarrow> string \<Rightarrow> string list" where
  "split_acc w [] = (if w = [] then [] else [w])"
| "split_acc w (c # cs) =
     (if py_isspace c then (if w = [] then split_acc [] cs else w # split_acc [] cs)
      else split_acc (w @ [c]) cs)"

definition split :: "string \<Rightarrow> string list" where
  "split s = split_acc [] s"

text \<open>\<^verbatim>\<open>" ".join(words)\<close>\<close>

fun join_space :: "string list \<Rightarrow> string" where
  "join_space [] = []"
| "join_space [w] = w"
| "join_space (w # v # ws) = w @ CHR '' '' # join_space (v # ws)"

text \<open>\<^verbatim>\<open>s.split(sep)\<close> for a one-character separator: empty pieces are kept.\<close>

fun split_on_acc :: "char \<Rightarrow> string \<Rightarrow> string \<Rightarrow> string list" where
  "split_on_acc sep w [] = [w]"
| "split_on_acc sep w (c # cs) =
     (if c = sep then w # split_on_acc sep [] cs else split_on_acc sep (w @ [c]) cs)"

definition split_on :: "char \<Rightarrow> string \<Rightarrow> string list" where
  "split_on sep s = split_on_acc sep [] s"

text \<open>\<^verbatim>\<open>needle in s\<close>\<close>

fun contains :: "string \<Rightarrow> string \<Rightarrow> bool" where
  "contains needle [] = (needle = [])"
| "contains needle (c # cs) = (take (length needle) (c # cs) = needle \<or> contains needle cs)"

section \<open>Numbers\<close>

text \<open>
  Python floats are modelled as reals: no rounding error, no infinities, no NaN.
  \<^verbatim>\<open>int(x)\<close> truncates towards zero; \<^verbatim>\<open>round(x, n)\<close> rounds to \<open>n\<close> decimals, a tie
  going to the even neighbour.
\<close>

definition py_int :: "real \<Rightarrow> int" where
  "py_int x = (if 0 \<le> x then \<lfloor>x\<rfloor> else \<lceil>x\<rceil>)"

definition py_round :: "real \<Rightarrow> nat \<Rightarrow> real" where
  "py_round x n =
     (let y = x * 10 ^ n; f = \<lfloor>y\<rfloor>; d = y - of_int f
      in of_int (if d < 1 / 2 then f else if 1 / 2 < d then f + 1
                 else if even f then f else f + 1) / 10 ^ n)"

section \<open>Data model\<close>

record AudioMetrics =
  duration_seconds :: real
  sample_rate :: int
  channels :: int
  bit_depth :: "int option"
  codec :: string
  bitrate_kbps :: "real option"
  peak_amplitude_db :: real
  rms_level_db :: real
  estimated_snr_db :: "real option"
  dynamic_range_db :: real
  silence_ratio :: real
  clipping_ratio :: real

record TranscriptionResult =
  service :: string
  text_str :: string
  wer :: real
  cer :: real
  processing_time_seconds :: "real option"
  run_date :: "string option"

text \<open>
  The \<^verbatim>\<open>microphone\<close> dict is an association list from keys to strings, read with
  \<open>map_of\<close> (\<^verbatim>\<open>d.get(k)\<close>); its order is the dict's insertion order.
\<close>

type_synonym microphone_dict = "(string \<times> string) list"

record SampleEvaluation =
  sample_id :: int
  filename :: string
  microphone :: microphone_dict
  audio_metrics :: AudioMetrics
  transcriptions :: "TranscriptionResult list"
  audio_quality_score :: real

section \<open>calculate_audio_quality_score\<close>

text \<open>
  The six blocks of the function, in source order. \<^verbatim>\<open>if metrics.bit_depth:\<close> and
  \<^verbatim>\<open>if metrics.estimated_snr_db:\<close> test truthiness: \<^verbatim>\<open>None\<close> and zero both take the
  \<^verbatim>\<open>else\<close> branch.
\<close>

definition sample_rate_points :: "AudioMetrics \<Rightarrow> real" where
  "sample_rate_points m =
     (if sample_rate m \<ge> 48000 then 15
      else if sample_rate m \<ge> 44100 then 12
      else if sample_rate m \<ge> 22050 then 8
      else 5)"

definition bit_depth_points :: "AudioMetrics \<Rightarrow> real" where
  "bit_depth_points m =
     (case bit_depth m of
        None \<Rightarrow> 6
      | Some b \<Rightarrow>
          if b \<noteq> 0 then (if b \<ge> 24 then 10 else if b \<ge> 16 then 8 else 5)
          else 6)"

definition snr_points :: "AudioMetrics \<Rightarrow> real" where
  "snr_points m =
     (case estimated_snr_db m of
        None \<Rightarrow> 12
      | Some snr \<Rightarrow>
          if snr \<noteq> 0 then
            (if snr \<ge> 40 then 25
             else if snr \<ge> 30 then 20
             else if snr \<ge> 20 then 15
             else if snr \<ge> 10 then 10
             else 5)
          else 12)"

definition rms_points :: "AudioMetrics \<Rightarrow> real" where
  "rms_points m =
     (let rms = rms_level_db m
      in if -20 \<le> rms \<and> rms \<le> -10 then 20
         else if -25 \<le> rms \<and> rms \<le> -8 then 15
         else if -30 \<le> rms \<and> rms \<le> -6 then 10
         else 5)"

definition clipping_points :: "AudioMetrics \<Rightarrow> real" where
  "clipping_points m = 15 * (1 - clipping_ratio m)"

definition dynamic_range_points :: "AudioMetrics \<Rightarrow> real" where
  "dynamic_range_points m =
     (let dr = dynamic_range_db m
      in if 30 \<le> dr \<and> dr \<le> 60 then 15
         else if 20 \<le> dr \<and> dr \<le> 70 then 12
         else if 15 \<le> dr \<and> dr \<le> 80 then 8
         else 5)"

definition calculate_audio_quality_score :: "AudioMetrics \<Rightarrow> real" where
  "calculate_audio_quality_score m =
     (let score = 0 + sample_rate_points m + bit_depth_points m + snr_points m
                    + rms_points m + clipping_points m + dynamic_range_points m
      in min 100 (max 0 score))"

section \<open>estimate_noise_floor\<close>

text \<open>\<^verbatim>\<open>xs[i]\<close>: a negative index counts from the end, an index out of range raises.\<close>

definition py_index :: "'a list \<Rightarrow> int \<Rightarrow> error + 'a" where
  "py_index xs i =
     (if 0 \<le> i \<and> i < int (length xs) then Inr (xs ! nat i)
      else if i < 0 \<and> - int (length xs) \<le> i then Inr (xs ! nat (int (length xs) + i))
      else Inl IndexError)"

text \<open>
  The value that one line of ffmpeg's output offers to the loop: the text after the
  first \<^verbatim>\<open>=\<close> of a line mentioning \<^verbatim>\<open>RMS_level\<close>, read by \<^verbatim>\<open>float\<close>. The parameter
  \<open>to_float\<close> is \<^verbatim>\<open>float\<close> on strings, \<open>None\<close> for \<^verbatim>\<open>ValueError\<close>; a missing \<^verbatim>\<open>=\<close> is
  the \<^verbatim>\<open>IndexError\<close>. Both are swallowed by the \<^verbatim>\<open>except\<close> clause, so both are \<open>None\<close>.
\<close>

definition rms_level_of_line :: "(string \<Rightarrow> real option) \<Rightarrow> string \<Rightarrow> real option" where
  "rms_level_of_line to_float line =
     (if contains ''RMS_level'' line then
        (case split_on (CHR ''='') line of
           _ # v # _ \<Rightarrow> to_float v
         | _ \<Rightarrow> None)
      else None)"

text \<open>The parsing loop: \<open>rms_values\<close> is the list being appended to.\<close>

fun collect_rms_values :: "(string \<Rightarrow> real option) \<Rightarrow> string list \<Rightarrow> real list \<Rightarrow> real list" where
  "collect_rms_values to_float [] rms_values = rms_values"
| "collect_rms_values to_float (line # lines) rms_values =
     collect_rms_values to_float lines
       (case rms_level_of_line to_float line of
          Some val \<Rightarrow> if val > -100 then rms_values @ [val] else rms_values
        | None \<Rightarrow> rms_values)"

definition noise_floor_of_values :: "real list \<Rightarrow> error + real" where
  "noise_floor_of_values rms_values =
     (if rms_values \<noteq> [] then
        (let sorted_values = sort rms_values;
             idx = max 0 (py_int (real (length sorted_values) * (1 / 10)))
         in py_index sorted_values idx)
      else Inr (-60))"

section \<open>Collaborators\<close>

text \<open>
  What the program reads from outside itself is a field of \<open>environment\<close>: the
  environment variable, the file system, the two ffmpeg tools, the two transcription
  services, the jiwer library, the clock, and Python's own number parsers. A collaborator
  that can raise returns \<open>error + 'a\<close>.

  ffprobe's JSON is typed as ffprobe writes it: \<^verbatim>\<open>sample_rate\<close>, \<^verbatim>\<open>bits_per_raw_sample\<close>,
  \<^verbatim>\<open>duration\<close> and \<^verbatim>\<open>bit_rate\<close> are strings, \<^verbatim>\<open>channels\<close> and \<^verbatim>\<open>bits_per_sample\<close> are
  integers; an absent key is \<open>None\<close>.
\<close>

record stream_info =
  codec_type :: "string option"
  st_sample_rate :: "string option"
  st_channels :: "int option"
  codec_name :: "string option"
  bits_per_sample :: "int option"
  bits_per_raw_sample :: "string option"

record format_info =
  fmt_duration :: "string option"
  fmt_bit_rate :: "string option"

record probe_data =
  streams :: "stream_info list"
  format_of :: format_info

record http_response =
  status_code :: int
  json_text :: "string option"
  elapsed :: real

record environment =
  OPENAI_API_KEY :: "string option"
  file_exists :: "string \<Rightarrow> bool"
  run_ffprobe :: "string \<Rightarrow> error + string"
  json_loads :: "string \<Rightarrow> error + probe_data"
  run_volumedetect :: "string \<Rightarrow> error + string"
  run_astats :: "string \<Rightarrow> error + string"
  to_float :: "string \<Rightarrow> real option"
  to_int :: "string \<Rightarrow> int option"
  db_field :: "string \<Rightarrow> real option"
  post_local_whisper :: "string \<Rightarrow> error + http_response"
  post_openai :: "string \<Rightarrow> error + http_response"
  jiwer_wer :: "string \<Rightarrow> string \<Rightarrow> error + real"
  jiwer_cer :: "string \<Rightarrow> string \<Rightarrow> error + real"
  today :: string

section \<open>Audio metrics\<close>

definition analyze_audio_with_ffprobe :: "environment \<Rightarrow> string \<Rightarrow> error + probe_data" where
  "analyze_audio_with_ffprobe env filepath =
     and_then (run_ffprobe env filepath) (json_loads env)"

record levels =
  peak_db :: "real option"
  mean_db :: "real option"

text \<open>
  \<^verbatim>\<open>float(line.split(":")[1].strip().replace(" dB", ""))\<close>: \<open>db_field\<close> is the
  trimming, the removal of the unit and \<^verbatim>\<open>float\<close> together.
\<close>

definition level_of_line :: "environment \<Rightarrow> string \<Rightarrow> error + real" where
  "level_of_line env line =
     (case split_on (CHR '':'') line of
        _ # v # _ \<Rightarrow> (case db_field env v of None \<Rightarrow> Inl ValueError | Some x \<Rightarrow> Inr x)
      | _ \<Rightarrow> Inl IndexError)"

fun levels_loop :: "environment \<Rightarrow> string list \<Rightarrow> levels \<Rightarrow> error + levels" where
  "levels_loop env [] lv = Inr lv"
| "levels_loop env (line # lines) lv =
     (if contains ''max_volume'' line then
        and_then (level_of_line env line) (\<lambda>x. levels_loop env lines (lv\<lparr>peak_db := Some x\<rparr>))
      else if contains ''mean_volume'' line then
        and_then (level_of_line env line) (\<lambda>x. levels_loop env lines (lv\<lparr>mean_db := Some x\<rparr>))
      else levels_loop env lines lv)"

definition analyze_audio_levels :: "environment \<Rightarrow> string \<Rightarrow> error + levels" where
  "analyze_audio_levels env filepath =
     and_then (run_volumedetect env filepath)
       (\<lambda>stderr. levels_loop env (split_on (CHR 0x0A) stderr) \<lparr>peak_db = None, mean_db = None\<rparr>)"

definition estimate_noise_floor :: "environment \<Rightarrow> string \<Rightarrow> error + real" where
  "estimate_noise_floor env filepath =
     and_then (run_astats env filepath)
       (\<lambda>stderr. noise_floor_of_values
                    (collect_rms_values (to_float env) (split_on (CHR 0x0A) stderr) []))"

definition float_of :: "environment \<Rightarrow> string \<Rightarrow> error + real" where
  "float_of env s = (case to_float env s of None \<Rightarrow> Inl ValueError | Some x \<Rightarrow> Inr x)"

definition int_of :: "environment \<Rightarrow> string \<Rightarrow> error + int" where
  "int_of env s = (case to_int env s of None \<Rightarrow> Inl ValueError | Some x \<Rightarrow> Inr x)"

text \<open>
  \<^verbatim>\<open>bits = a.get("bits_per_sample") or a.get("bits_per_raw_sample")\<close>, then
  \<^verbatim>\<open>if bits: bit_depth = int(bits)\<close>: a zero integer and an empty string are falsy.
\<close>

definition bit_depth_of :: "environment \<Rightarrow> stream_info \<Rightarrow> error + int option" where
  "bit_depth_of env a =
     (let raw = (case bits_per_raw_sample a of
                   None \<Rightarrow> Inr None
                 | Some s \<Rightarrow> if s = [] then Inr None
                             else and_then (int_of env s) (\<lambda>b. Inr (Some b)))
      in case bits_per_sample a of
           Some b \<Rightarrow> if b \<noteq> 0 then Inr (Some b) else raw
         | None \<Rightarrow> raw)"

definition analyze_audio_metrics :: "environment \<Rightarrow> string \<Rightarrow> error + AudioMetrics" where
  "analyze_audio_metrics env filepath =
     and_then (analyze_audio_with_ffprobe env filepath) (\<lambda>probe.
     and_then (analyze_audio_levels env filepath) (\<lambda>lv.
       let audio_stream = find (\<lambda>st. codec_type st = Some ''audio'') (streams probe);
           format_info = format_of probe
       in
     and_then (case fmt_duration format_info of None \<Rightarrow> Inr 0 | Some d \<Rightarrow> float_of env d)
       (\<lambda>duration.
     and_then (case audio_stream of
                 None \<Rightarrow> Inr 0
               | Some a \<Rightarrow> (case st_sample_rate a of None \<Rightarrow> Inr 0 | Some r \<Rightarrow> int_of env r))
       (\<lambda>rate.
       let chans = (case audio_stream of
                      None \<Rightarrow> 0
                    | Some a \<Rightarrow> (case st_channels a of None \<Rightarrow> 0 | Some c \<Rightarrow> c));
           cdc = (case audio_stream of
                    None \<Rightarrow> ''unknown''
                  | Some a \<Rightarrow> (case codec_name a of None \<Rightarrow> ''unknown'' | Some c \<Rightarrow> c))
       in
     and_then (case audio_stream of None \<Rightarrow> Inr None | Some a \<Rightarrow> bit_depth_of env a)
       (\<lambda>depth.
     and_then (case fmt_bit_rate format_info of
                 None \<Rightarrow> Inr None
               | Some b \<Rightarrow> if b = [] then Inr None
                           else and_then (float_of env b) (\<lambda>x. Inr (Some (x / 1000))))
       (\<lambda>bitrate.
       let peak = (case peak_db lv of None \<Rightarrow> 0 | Some p \<Rightarrow> p);
           mean = (case mean_db lv of None \<Rightarrow> -20 | Some m \<Rightarrow> m)
       in
     and_then (estimate_noise_floor env filepath) (\<lambda>noise_floor.
       Inr \<lparr>duration_seconds = duration,
            sample_rate = rate,
            channels = chans,
            bit_depth = depth,
            codec = cdc,
            bitrate_kbps = bitrate,
            peak_amplitude_db = peak,
            rms_level_db = mean,
            estimated_snr_db = (if noise_floor \<noteq> 0 then Some (mean - noise_floor) else None),
            dynamic_range_db = (if noise_floor \<noteq> 0 then \<bar>peak - noise_floor\<bar>
                                else \<bar>peak - mean\<bar>),
            silence_ratio = (if noise_floor \<noteq> 0 then max 0 (min 1 ((noise_floor + 60) / 60))
                             else 1 / 10),
            clipping_ratio = (if peak > -3 then max 0 (min 1 ((peak + 1) / 3)) else 0)\<rparr>)))))))"

section \<open>Transcription and normalisation\<close>

text \<open>
  \<^verbatim>\<open>re.sub(r"[^\w\s]", "", text)\<close> deletes the characters that are neither in \<^verbatim>\<open>\w\<close> nor
  in \<^verbatim>\<open>\s\<close>.
\<close>

definition normalize_text :: "string \<Rightarrow> string" where
  "normalize_text t =
     (let t1 = lower t;
          t2 = filter (\<lambda>c. re_word c \<or> py_isspace c) t1
      in join_space (split t2))"

definition get_reference_text :: "string \<Rightarrow> string" where
  "get_reference_text file_content = join_space (split (lower file_content))"

definition response_text :: "http_response \<Rightarrow> string \<times> real" where
  "response_text r =
     (if status_code r = 200
      then (case json_text r of None \<Rightarrow> ([], elapsed r) | Some t \<Rightarrow> (t, elapsed r))
      else ([], elapsed r))"

definition transcribe_with_local_whisper :: "environment \<Rightarrow> string \<Rightarrow> error + string \<times> real" where
  "transcribe_with_local_whisper env filepath =
     and_then (post_local_whisper env filepath) (\<lambda>r. Inr (response_text r))"

text \<open>\<^verbatim>\<open>if not OPENAI_API_KEY\<close>: an unset variable and an empty one are both falsy.\<close>

definition key_configured :: "environment \<Rightarrow> bool" where
  "key_configured env = (case OPENAI_API_KEY env of None \<Rightarrow> False | Some k \<Rightarrow> k \<noteq> [])"

definition transcribe_with_openai :: "environment \<Rightarrow> string \<Rightarrow> error + string \<times> real" where
  "transcribe_with_openai env filepath =
     (if \<not> key_configured env then Inr ([], 0)
      else and_then (post_openai env filepath) (\<lambda>r. Inr (response_text r)))"

definition local_service :: string where
  "local_service = ''local_whisper_large_v3_turbo''"

definition openai_service :: string where
  "openai_service = ''openai_whisper_1''"

text \<open>The metadata entry of one sample: the keys \<^verbatim>\<open>id\<close>, \<^verbatim>\<open>filename\<close>, \<^verbatim>\<open>microphone\<close>.\<close>

record sample =
  s_id :: int
  s_filename :: string
  s_microphone :: microphone_dict

definition score_transcript ::
  "environment \<Rightarrow> string \<Rightarrow> string \<Rightarrow> string \<Rightarrow> real \<Rightarrow> error + TranscriptionResult" where
  "score_transcript env svc normalized_reference txt seconds =
     (let normalized = normalize_text txt
      in and_then (jiwer_wer env normalized_reference normalized) (\<lambda>w.
         and_then (jiwer_cer env normalized_reference normalized) (\<lambda>c.
           Inr \<lparr>service = svc, text_str = txt, wer = w, cer = c,
                processing_time_seconds = Some seconds, run_date = Some (today env)\<rparr>)))"

text \<open>
  \<^verbatim>\<open>f"{m['manufacturer']} {m['model']}"\<close>: subscripting raises \<^verbatim>\<open>KeyError\<close> on a
  missing key.
\<close>

definition microphone_label :: "microphone_dict \<Rightarrow> error + string" where
  "microphone_label m =
     (case map_of m ''manufacturer'' of
        None \<Rightarrow> Inl (KeyError ''manufacturer'')
      | Some manufacturer \<Rightarrow>
          (case map_of m ''model'' of
             None \<Rightarrow> Inl (KeyError ''model'')
           | Some model \<Rightarrow> Inr (manufacturer @ '' '' @ model)))"

text \<open>
  The function first prints the sample's label, which needs both keys. The local
  transcription sits inside \<^verbatim>\<open>try ... except Exception\<close>: any exception leaves
  the list as it was. The OpenAI transcription and the audio analysis are not guarded.
\<close>

definition evaluate_sample :: "environment \<Rightarrow> sample \<Rightarrow> string \<Rightarrow> error + SampleEvaluation" where
  "evaluate_sample env smp reference_text =
     (let filepath = s_filename smp
      in and_then (microphone_label (s_microphone smp)) (\<lambda>_.
         and_then (analyze_audio_metrics env filepath) (\<lambda>metrics.
         let quality = calculate_audio_quality_score metrics;
             normalized_reference = normalize_text reference_text;
             attempt = and_then (transcribe_with_local_whisper env filepath) (\<lambda>(local_text, local_time).
                         if local_text \<noteq> []
                         then and_then (score_transcript env local_service normalized_reference
                                          local_text local_time) (\<lambda>t. Inr [t])
                         else Inr []);
             after_local = (case attempt of Inl _ \<Rightarrow> [] | Inr ts \<Rightarrow> ts)
         in
         and_then (if key_configured env
                   then and_then (transcribe_with_openai env filepath) (\<lambda>(openai_text, openai_time).
                          if openai_text \<noteq> []
                          then and_then (score_transcript env openai_service normalized_reference
                                           openai_text openai_time) (\<lambda>t. Inr (after_local @ [t]))
                          else Inr after_local)
                   else Inr after_local)
           (\<lambda>ts. Inr \<lparr>sample_id = s_id smp,
                       filename = s_filename smp,
                       microphone = s_microphone smp,
                       audio_metrics = metrics,
                       transcriptions = ts,
                       audio_quality_score = quality\<rparr>))))"

section \<open>generate_report\<close>

record quality_entry =
  q_rank :: nat
  q_sample_id :: int
  q_microphone :: string
  q_category :: "string option"
  q_score :: real

record wer_entry =
  w_rank :: nat
  w_sample_id :: int
  w_microphone :: string
  w_wer_percent :: real

record category_data =
  samples :: "int list"
  avg_quality :: real
  avg_wer :: "real option"

record detailed_result =
  d_sample_id :: int
  d_filename :: string
  d_microphone :: microphone_dict
  d_audio_metrics :: AudioMetrics
  d_audio_quality_score :: real
  d_transcriptions :: "TranscriptionResult list"

record report_summary =
  total_samples :: nat
  reference_text_words :: nat
  openai_api_available :: bool

text \<open>
  The key \<^verbatim>\<open>by_openai_whisper_wer\<close> exists only when it is added after the dict literal:
  \<open>None\<close> is the absent key. \<^verbatim>\<open>by_local_whisper_wer\<close> is a key of the literal itself.
\<close>

record report_rankings =
  by_audio_quality :: "quality_entry list"
  by_local_whisper_wer :: "wer_entry list"
  by_openai_whisper_wer :: "wer_entry list option"

record report =
  summary :: report_summary
  rankings :: report_rankings
  category_analysis :: "(string \<times> category_data) list"
  detailed_results :: "detailed_result list"

text \<open>
  \<^verbatim>\<open>sorted(xs, key=k)\<close> is a stable ascending sort; with \<^verbatim>\<open>reverse=True\<close> the list is
  reversed, sorted stably and reversed again, so equal keys keep their input order in
  both.
\<close>

definition sorted_by :: "('a \<Rightarrow> real) \<Rightarrow> 'a list \<Rightarrow> 'a list" where
  "sorted_by k xs = sort_key k xs"

definition sorted_by_reverse :: "('a \<Rightarrow> real) \<Rightarrow> 'a list \<Rightarrow> 'a list" where
  "sorted_by_reverse k xs = rev (sort_key k (rev xs))"

text \<open>
  A sort whose key function can raise: the keys of all elements are computed first, and
  the first exception leaves \<^verbatim>\<open>sorted\<close>.
\<close>

definition sorted_by_raising :: "('a \<Rightarrow> error + real) \<Rightarrow> 'a list \<Rightarrow> error + 'a list" where
  "sorted_by_raising k xs =
     and_then (traverse (\<lambda>x. and_then (k x) (\<lambda>v. Inr (v, x))) xs)
       (\<lambda>kxs. Inr (map snd (sorted_by fst kxs)))"

text \<open>\<^verbatim>\<open>any(t.service == svc for t in e.transcriptions)\<close>\<close>

definition has_service :: "string \<Rightarrow> SampleEvaluation \<Rightarrow> bool" where
  "has_service svc e = list_ex (\<lambda>t. service t = svc) (transcriptions e)"

text \<open>\<^verbatim>\<open>next(t.wer for t in e.transcriptions if t.service == svc)\<close>, and with a default.\<close>

definition next_wer :: "string \<Rightarrow> SampleEvaluation \<Rightarrow> error + real" where
  "next_wer svc e =
     (case find (\<lambda>t. service t = svc) (transcriptions e) of
        None \<Rightarrow> Inl StopIteration
      | Some t \<Rightarrow> Inr (wer t))"

definition next_wer_or_none :: "string \<Rightarrow> SampleEvaluation \<Rightarrow> real option" where
  "next_wer_or_none svc e = map_option wer (find (\<lambda>t. service t = svc) (transcriptions e))"

definition category_or_unknown :: "SampleEvaluation \<Rightarrow> string" where
  "category_or_unknown e =
     (case map_of (microphone e) ''category'' of None \<Rightarrow> ''unknown'' | Some c \<Rightarrow> c)"

text \<open>The first loop over the evaluations: one step, then the loop.\<close>

definition add_to_category ::
  "(string \<times> category_data) list \<Rightarrow> SampleEvaluation \<Rightarrow> (string \<times> category_data) list" where
  "add_to_category categories e =
     (let cat = category_or_unknown e;
          categories1 = (if cat \<notin> fst ` set categories
                         then categories @ [(cat, \<lparr>samples = [], avg_quality = 0, avg_wer = Some 0\<rparr>)]
                         else categories)
      in map (\<lambda>(c, d). if c = cat then (c, d\<lparr>samples := samples d @ [sample_id e]\<rparr>) else (c, d))
           categories1)"

definition group_categories :: "SampleEvaluation list \<Rightarrow> (string \<times> category_data) list" where
  "group_categories evaluations = foldl add_to_category [] evaluations"

text \<open>The second loop: the averages of one category, dividing by \<^verbatim>\<open>len(cat_evals)\<close>.\<close>

definition category_averages ::
  "SampleEvaluation list \<Rightarrow> string \<times> category_data \<Rightarrow> error + string \<times> category_data" where
  "category_averages evaluations cd =
     (let cat = fst cd; d = snd cd;
          cat_evals = filter (\<lambda>e. map_of (microphone e) ''category'' = Some cat) evaluations
      in if length cat_evals = 0 then Inl ZeroDivisionError
         else
           (let quality = sum_list (map audio_quality_score cat_evals) / real (length cat_evals);
                wers = List.map_filter (next_wer_or_none local_service) cat_evals
            in Inr (cat, d\<lparr>avg_quality := quality,
                           avg_wer := (if wers \<noteq> [] then Some (sum_list wers / real (length wers))
                                       else None)\<rparr>)))"

definition analyze_categories ::
  "SampleEvaluation list \<Rightarrow> error + (string \<times> category_data) list" where
  "analyze_categories evaluations =
     traverse (category_averages evaluations) (group_categories evaluations)"

definition quality_entry_of :: "nat \<times> SampleEvaluation \<Rightarrow> error + quality_entry" where
  "quality_entry_of ie =
     (let i = fst ie; e = snd ie
      in and_then (microphone_label (microphone e)) (\<lambda>label.
           Inr \<lparr>q_rank = i + 1,
                q_sample_id = sample_id e,
                q_microphone = label,
                q_category = map_of (microphone e) ''category'',
                q_score = py_round (audio_quality_score e) 1\<rparr>))"

definition wer_entry_of :: "string \<Rightarrow> nat \<times> SampleEvaluation \<Rightarrow> error + wer_entry" where
  "wer_entry_of svc ie =
     (let i = fst ie; e = snd ie
      in and_then (microphone_label (microphone e)) (\<lambda>label.
         and_then (next_wer svc e) (\<lambda>w.
           Inr \<lparr>w_rank = i + 1,
                w_sample_id = sample_id e,
                w_microphone = label,
                w_wer_percent = py_round (w * 100) 2\<rparr>)))"

definition detailed_result_of :: "SampleEvaluation \<Rightarrow> detailed_result" where
  "detailed_result_of e =
     \<lparr>d_sample_id = sample_id e,
      d_filename = filename e,
      d_microphone = microphone e,
      d_audio_metrics = audio_metrics e,
      d_audio_quality_score = py_round (audio_quality_score e) 1,
      d_transcriptions = transcriptions e\<rparr>"

definition generate_report ::
  "environment \<Rightarrow> SampleEvaluation list \<Rightarrow> string \<Rightarrow> error + report" where
  "generate_report env evaluations reference_text =
     (let by_quality = sorted_by_reverse audio_quality_score evaluations
      in and_then (sorted_by_raising (next_wer local_service)
                     (filter (has_service local_service) evaluations)) (\<lambda>by_local_wer.
         and_then (sorted_by_raising (next_wer openai_service)
                     (filter (has_service openai_service) evaluations)) (\<lambda>by_openai_wer.
         and_then (analyze_categories evaluations) (\<lambda>categories.
         and_then (traverse quality_entry_of (enumerate 0 by_quality)) (\<lambda>quality_entries.
         and_then (traverse (wer_entry_of local_service) (enumerate 0 by_local_wer))
           (\<lambda>local_entries.
         let rep = \<lparr>summary = \<lparr>total_samples = length evaluations,
                                reference_text_words = length (split reference_text),
                                openai_api_available = (OPENAI_API_KEY env \<noteq> None)\<rparr>,
                    rankings = \<lparr>by_audio_quality = quality_entries,
                                 by_local_whisper_wer = local_entries,
                                 by_openai_whisper_wer = None\<rparr>,
                    category_analysis = categories,
                    detailed_results = map detailed_result_of evaluations\<rparr>
         in if by_openai_wer \<noteq> []
            then and_then (traverse (wer_entry_of openai_service) (enumerate 0 by_openai_wer))
                   (\<lambda>openai_entries.
                      Inr (rep\<lparr>rankings := (rankings rep)\<lparr>by_openai_whisper_wer :=
                                                            Some openai_entries\<rparr>\<rparr>))
            else Inr rep))))))"

section \<open>main\<close>

text \<open>
  The part of \<^verbatim>\<open>main\<close> from the sample filter to the report. \<open>args_samples\<close> is the
  parsed \<^verbatim>\<open>--samples\<close> list (\<open>None\<close> when the option is not given), \<open>args_merge\<close> the
  \<^verbatim>\<open>--merge\<close> flag, \<open>results_file\<close> the \<^verbatim>\<open>detailed_results\<close> of the results file
  (\<open>None\<close> when the file does not exist). Of the printed lines only the skip notice is
  kept.
\<close>

datatype notice = Skipping int string

fun evaluate_loop ::
  "environment \<Rightarrow> string \<Rightarrow> sample list \<Rightarrow> SampleEvaluation list \<times> notice list
     \<Rightarrow> error + SampleEvaluation list \<times> notice list" where
  "evaluate_loop env reference_text [] st = Inr st"
| "evaluate_loop env reference_text (smp # rest) st =
     (if file_exists env (s_filename smp)
      then (case evaluate_sample env smp reference_text of
              Inl err \<Rightarrow> Inl err
            | Inr eval_result \<Rightarrow>
                evaluate_loop env reference_text rest (fst st @ [eval_result], snd st))
      else evaluate_loop env reference_text rest
             (fst st, snd st @ [Skipping (s_id smp) (s_filename smp)]))"

definition existing_eval :: "detailed_result \<Rightarrow> SampleEvaluation" where
  "existing_eval r =
     \<lparr>sample_id = d_sample_id r,
      filename = d_filename r,
      microphone = d_microphone r,
      audio_metrics = d_audio_metrics r,
      transcriptions = d_transcriptions r,
      audio_quality_score = d_audio_quality_score r\<rparr>"

definition samples_to_evaluate :: "sample list \<Rightarrow> int list option \<Rightarrow> sample list" where
  "samples_to_evaluate metadata_samples args_samples =
     (case args_samples of
        None \<Rightarrow> metadata_samples
      | Some sample_ids \<Rightarrow> filter (\<lambda>s. s_id s \<in> set sample_ids) metadata_samples)"

definition existing_detailed_results ::
  "bool \<Rightarrow> int list option \<Rightarrow> detailed_result list option \<Rightarrow> detailed_result list" where
  "existing_detailed_results args_merge args_samples results_file =
     (if args_merge then
        (case results_file of
           None \<Rightarrow> []
         | Some stored \<Rightarrow>
             (case args_samples of
                None \<Rightarrow> stored
              | Some sample_ids \<Rightarrow> filter (\<lambda>r. d_sample_id r \<notin> set sample_ids) stored))
      else [])"

definition merge_existing ::
  "bool \<Rightarrow> detailed_result list \<Rightarrow> SampleEvaluation list \<Rightarrow> SampleEvaluation list" where
  "merge_existing args_merge existing evaluations =
     (if args_merge \<and> existing \<noteq> []
      then sort_key sample_id (evaluations @ map existing_eval existing)
      else evaluations)"

definition main_evaluations ::
  "environment \<Rightarrow> sample list \<Rightarrow> string \<Rightarrow> int list option \<Rightarrow> bool
     \<Rightarrow> detailed_result list option \<Rightarrow> error + SampleEvaluation list \<times> notice list" where
  "main_evaluations env metadata_samples reference_text args_samples args_merge results_file =
     (let existing = existing_detailed_results args_merge args_samples results_file
      in and_then (evaluate_loop env reference_text
                     (samples_to_evaluate metadata_samples args_samples) ([], []))
           (\<lambda>st. Inr (merge_existing args_merge existing (fst st), snd st)))"

definition main ::
  "environment \<Rightarrow> sample list \<Rightarrow> string \<Rightarrow> int list option \<Rightarrow> bool
     \<Rightarrow> detailed_result list option \<Rightarrow> error + report \<times> notice list" where
  "main env metadata_samples reference_file args_samples args_merge results_file =
     (let reference_text = get_reference_text reference_file
      in and_then (main_evaluations env metadata_samples reference_text args_samples args_merge
                     results_file) (\<lambda>st.
         and_then (generate_report env (fst st) reference_text) (\<lambda>rep. Inr (rep, snd st))))"

section \<open>Vocabulary of the properties\<close>

text \<open>
  \<open>wer_for\<close> is the error rate a ranking sorts by: the first transcription of the
  service. \<open>labelled\<close> says that the two subscripted keys of the microphone dict are
  present. \<open>categories_resolvable\<close> is the condition under which no category group is
  empty in the second loop of the category analysis. \<open>ranking_keys\<close> lists the keys of
  \<^verbatim>\<open>report["rankings"]\<close>.
\<close>

definition wer_for :: "string \<Rightarrow> SampleEvaluation \<Rightarrow> real" where
  "wer_for svc e = (case next_wer_or_none svc e of None \<Rightarrow> 0 | Some w \<Rightarrow> w)"

definition labelled :: "SampleEvaluation \<Rightarrow> bool" where
  "labelled e = (map_of (microphone e) ''manufacturer'' \<noteq> None
                 \<and> map_of (microphone e) ''model'' \<noteq> None)"

definition categories_resolvable :: "SampleEvaluation list \<Rightarrow> bool" where
  "categories_resolvable evaluations =
     (list_ex (\<lambda>e. map_of (microphone e) ''category'' = None) evaluations
      \<longrightarrow> list_ex (\<lambda>e. map_of (microphone e) ''category'' = Some ''unknown'') evaluations)"

definition ranking_keys :: "report_rankings \<Rightarrow> string list" where
  "ranking_keys r =
     [''by_audio_quality'', ''by_local_whisper_wer'']
     @ (case by_openai_whisper_wer r of None \<Rightarrow> [] | Some _ \<Rightarrow> [''by_openai_whisper_wer''])"

definition double_space :: "char \<Rightarrow> char \<Rightarrow> bool" where
  "double_space a b = (a = CHR '' '' \<and> b = CHR '' '')"

text \<open>
  What it means for a list of entries to be the ranking of a service: the samples that
  have a result of the service, in ascending order of their error rate, equal rates in
  input order, ranks counted from 1.
\<close>

definition wer_ranking_of ::
  "string \<Rightarrow> SampleEvaluation list \<Rightarrow> wer_entry list \<Rightarrow> bool" where
  "wer_ranking_of svc evaluations entries =
     (\<exists>order. mset order = mset (filter (has_service svc) evaluations)
        \<and> sorted (map (wer_for svc) order)
        \<and> (\<forall>c. filter (\<lambda>e. wer_for svc e = c) order
                 = filter (\<lambda>e. wer_for svc e = c) (filter (has_service svc) evaluations))
        \<and> map w_sample_id entries = map sample_id order
        \<and> map w_wer_percent entries = map (\<lambda>e. py_round (wer_for svc e * 100) 2) order
        \<and> map w_rank entries = [1..<length order + 1])"

section \<open>Sample data\<close>

text \<open>
  Concrete inputs on which the theorems below are exercised. \<open>bench_env\<close> is a machine
  with no API key and no local transcription service, where every file exists except
  \<^verbatim>\<open>missing.wav\<close>, where running ffprobe on \<^verbatim>\<open>broken.wav\<close> raises, and where ffprobe
  finds no stream in any other file and prints an empty JSON object. \<open>astats_env\<close> is
  the same machine with a statistics filter that reports twelve RMS windows, one of them
  silent and one at -120 dB.
\<close>

definition snr_zero_metrics :: AudioMetrics where
  "snr_zero_metrics =
     \<lparr>duration_seconds = 10, sample_rate = 48000, channels = 1, bit_depth = Some 24,
      codec = ''pcm_s24le'', bitrate_kbps = None, peak_amplitude_db = -6,
      rms_level_db = -30, estimated_snr_db = Some 0, dynamic_range_db = 24,
      silence_ratio = 1 / 2, clipping_ratio = 0\<rparr>"

definition mic :: "string \<Rightarrow> microphone_dict" where
  "mic cat = [(''manufacturer'', ''Acme''), (''model'', ''M1''), (''category'', cat)]"

definition mic_uncategorised :: microphone_dict where
  "mic_uncategorised = [(''manufacturer'', ''Acme''), (''model'', ''M1'')]"

definition transcript :: "string \<Rightarrow> real \<Rightarrow> TranscriptionResult" where
  "transcript svc w =
     \<lparr>service = svc, text_str = ''coffee'', wer = w, cer = w,
      processing_time_seconds = None, run_date = None\<rparr>"

definition evaluation ::
  "int \<Rightarrow> microphone_dict \<Rightarrow> real \<Rightarrow> TranscriptionResult list \<Rightarrow> SampleEvaluation" where
  "evaluation i m q ts =
     \<lparr>sample_id = i, filename = ''s.wav'', microphone = m, audio_metrics = snr_zero_metrics,
      transcriptions = ts, audio_quality_score = q\<rparr>"

definition bench_env :: environment where
  "bench_env =
     \<lparr>OPENAI_API_KEY = None,
      file_exists = (\<lambda>f. f \<noteq> ''missing.wav''),
      run_ffprobe = (\<lambda>f. if f = ''broken.wav'' then Inl (CollaboratorError ''OSError'')
                         else Inr ''{}''),
      json_loads = (\<lambda>s. if s = [] then Inl (CollaboratorError ''JSONDecodeError'')
                          else Inr \<lparr>streams = [],
                                    format_of = \<lparr>fmt_duration = None, fmt_bit_rate = None\<rparr>\<rparr>),
      run_volumedetect = (\<lambda>f. Inr []),
      run_astats = (\<lambda>f. Inr []),
      to_float = (\<lambda>s. None),
      to_int = (\<lambda>s. None),
      db_field = (\<lambda>s. None),
      post_local_whisper = (\<lambda>f. Inl (CollaboratorError ''ConnectionError'')),
      post_openai = (\<lambda>f. Inl (CollaboratorError ''ConnectionError'')),
      jiwer_wer = (\<lambda>r h. Inr 0),
      jiwer_cer = (\<lambda>r h. Inr 0),
      today = ''2025-01-01''\<rparr>"

definition sample_a :: sample where
  "sample_a = \<lparr>s_id = 1, s_filename = ''a.wav'', s_microphone = mic ''usb''\<rparr>"

definition sample_b :: sample where
  "sample_b = \<lparr>s_id = 2, s_filename = ''b.wav'', s_microphone = mic ''usb''\<rparr>"

definition sample_missing :: sample where
  "sample_missing = \<lparr>s_id = 3, s_filename = ''missing.wav'', s_microphone = mic ''xlr''\<rparr>"


definition stored_result :: "int \<Rightarrow> real \<Rightarrow> detailed_result" where
  "stored_result i q = detailed_result_of (evaluation i (mic ''xlr'') q [])"

definition tie_evaluations :: "SampleEvaluation list" where
  "tie_evaluations =
     [evaluation 2 (mic ''usb'') 50 [], evaluation 1 (mic ''usb'') 50 [],
      evaluation 3 (mic ''xlr'') 60 []]"

definition wer_evaluations :: "SampleEvaluation list" where
  "wer_evaluations =
     [evaluation 2 (mic ''usb'') 50 [transcript local_service (1 / 10)],
      evaluation 1 (mic ''xlr'') 60
        [transcript local_service (1 / 20), transcript openai_service 0],
      evaluation 3 (mic ''xlr'') 40 []]"

definition uncategorised_evaluations :: "SampleEvaluation list" where
  "uncategorised_evaluations =
     [evaluation 1 (mic ''unknown'') 10 [], evaluation 2 mic_uncategorised 20 []]"

definition astats_output :: string where
  "astats_output =
     ''RMS_level=-31.0'' @ [CHR 0x0A] @ ''RMS_level=-35.0'' @ [CHR 0x0A] @
     ''RMS_level=-inf'' @ [CHR 0x0A] @ ''RMS_level=-52.0'' @ [CHR 0x0A] @
     ''RMS_level=-33.0'' @ [CHR 0x0A] @ ''size=N/A time=00:00:10'' @ [CHR 0x0A] @
     ''RMS_level=-48.0'' @ [CHR 0x0A] @ ''RMS_level=-30.0'' @ [CHR 0x0A] @
     ''RMS_level=-120.0'' @ [CHR 0x0A] @ ''RMS_level=-32.0'' @ [CHR 0x0A] @
     ''RMS_level=-34.0'' @ [CHR 0x0A] @ ''RMS_level=-36.0'' @ [CHR 0x0A] @
     ''RMS_level=-37.0'' @ [CHR 0x0A]"

definition astats_env :: environment where
  "astats_env =
     bench_env\<lparr>run_astats := (\<lambda>f. Inr astats_output),
               to_float := map_of [(''-30.0'', -30), (''-31.0'', -31), (''-32.0'', -32),
                                   (''-33.0'', -33), (''-34.0'', -34), (''-35.0'', -35),
                                   (''-36.0'', -36), (''-37.0'', -37), (''-48.0'', -48),
                                   (''-52.0'', -52), (''-120.0'', -120)]\<rparr>"

section \<open>Lemmas: strings\<close>

lemma not_upper_lower_char: "\<not> py_isupper (lower_char c)"
proof (cases "py_isupper c")
  case False
  then show ?thesis by (simp add: lower_char_def)
next
  case True
  have lt: "code_point c < 256"
    by (simp add: code_point_def)
  from True have "code_point c + 32 < 256"
    by (auto simp: py_isupper_def Let_def)
  then have cp: "code_point (char_of (code_point c + 32)) = code_point c + 32"
    by (simp add: code_point_def)
  from True show ?thesis
    by (auto simp: lower_char_def py_isupper_def Let_def cp)
qed

lemma space_is_space: "py_isspace (CHR '' '')"
  by (simp add: py_isspace_def code_point_def)

lemma split_acc_words:
  "\<forall>c\<in>set w. \<not> py_isspace c \<Longrightarrow> v \<in> set (split_acc w s) \<Longrightarrow>
   v \<noteq> [] \<and> (\<forall>c\<in>set v. \<not> py_isspace c)"
proof (induction s arbitrary: w)
  case Nil
  then show ?case by (cases "w = []") simp_all
next
  case (Cons a s)
  show ?case
  proof (cases "py_isspace a")
    case space: True
    show ?thesis
    proof (cases "w = []")
      case True
      with Cons.prems(2) space have "v \<in> set (split_acc [] s)"
        by simp
      then show ?thesis
        using Cons.IH [of "[]"] by simp
    next
      case False
      with Cons.prems(2) space have "v = w \<or> v \<in> set (split_acc [] s)"
        by simp
      then show ?thesis
      proof
        assume "v = w"
        with False Cons.prems(1) show ?thesis by simp
      next
        assume "v \<in> set (split_acc [] s)"
        then show ?thesis
          using Cons.IH [of "[]"] by simp
      qed
    qed
  next
    case False
    with Cons.prems(2) have "v \<in> set (split_acc (w @ [a]) s)"
      by simp
    moreover have "\<forall>c\<in>set (w @ [a]). \<not> py_isspace c"
      using Cons.prems(1) False by simp
    ultimately show ?thesis
      using Cons.IH [of "w @ [a]"] by blast
  qed
qed

lemma split_acc_subset:
  "v \<in> set (split_acc w s) \<Longrightarrow> set v \<subseteq> set w \<union> set s"
proof (induction s arbitrary: w)
  case Nil
  then show ?case by (cases "w = []") simp_all
next
  case (Cons a s)
  show ?case
  proof (cases "py_isspace a")
    case space: True
    show ?thesis
    proof (cases "w = []")
      case True
      with Cons.prems space have "v \<in> set (split_acc [] s)"
        by simp
      then have "set v \<subseteq> set [] \<union> set s"
        by (rule Cons.IH)
      then show ?thesis by auto
    next
      case False
      with Cons.prems space have "v = w \<or> v \<in> set (split_acc [] s)"
        by simp
      then show ?thesis
      proof
        assume "v = w"
        then show ?thesis by auto
      next
        assume "v \<in> set (split_acc [] s)"
        then have "set v \<subseteq> set [] \<union> set s"
          by (rule Cons.IH)
        then show ?thesis by auto
      qed
    qed
  next
    case False
    with Cons.prems have "v \<in> set (split_acc (w @ [a]) s)"
      by simp
    then have "set v \<subseteq> set (w @ [a]) \<union> set s"
      by (rule Cons.IH)
    then show ?thesis by auto
  qed
qed

lemma concat_split_acc:
  "concat (split_acc w s) = w @ filter (\<lambda>c. \<not> py_isspace c) s"
  by (induction s arbitrary: w) simp_all

lemma set_join_space: "set (join_space ws) \<subseteq> (\<Union>w\<in>set ws. set w) \<union> {CHR '' ''}"
  by (induction ws rule: join_space.induct) auto

lemma hd_join_space:
  "\<forall>w\<in>set ws. w \<noteq> [] \<and> CHR '' '' \<notin> set w \<Longrightarrow> ws \<noteq> [] \<Longrightarrow>
   join_space ws \<noteq> [] \<and> hd (join_space ws) \<noteq> CHR '' '' \<and> last (join_space ws) \<noteq> CHR '' ''"
proof (induction ws rule: join_space.induct)
  case 1
  then show ?case by simp
next
  case (2 w)
  then have "w \<noteq> []" "CHR '' '' \<notin> set w" by auto
  then show ?case by (metis hd_in_set last_in_set join_space.simps(2))
next
  case (3 w v ws)
  then have w: "w \<noteq> []" "CHR '' '' \<notin> set w" by auto
  then have "hd w \<noteq> CHR '' ''" by (metis hd_in_set)
  with 3 w show ?case by (simp add: hd_append)
qed

lemma successively_spaceless:
  "CHR '' '' \<notin> set w \<Longrightarrow> successively (\<lambda>a b. \<not> double_space a b) w"
  by (induction w) (auto simp: successively_Cons double_space_def dest: hd_in_set)

lemma successively_join_space:
  "\<forall>w\<in>set ws. w \<noteq> [] \<and> CHR '' '' \<notin> set w \<Longrightarrow>
   successively (\<lambda>a b. \<not> double_space a b) (join_space ws)"
proof (induction ws rule: join_space.induct)
  case 1
  then show ?case by simp
next
  case (2 w)
  then show ?case by (simp add: successively_spaceless)
next
  case (3 w v ws)
  have tl: "hd (join_space (v # ws)) \<noteq> CHR '' ''" "join_space (v # ws) \<noteq> []"
    using hd_join_space [of "v # ws"] 3 by auto
  have w0: "w \<noteq> []" "CHR '' '' \<notin> set w"
    using 3 by auto
  then have w: "w \<noteq> []" "last w \<noteq> CHR '' ''"
    by (metis last_in_set)+
  have ih: "successively (\<lambda>a b. \<not> double_space a b) (join_space (v # ws))"
    using 3 by simp
  have sp: "\<not> double_space (last w) (CHR '' '')"
       "\<not> double_space (CHR '' '') (hd (join_space (v # ws)))"
    using w tl by (simp_all add: double_space_def)
  show ?case
    using tl(2) w0 ih sp
    by (simp add: successively_append_iff successively_Cons successively_spaceless)
qed

section \<open>Lemmas: noise floor\<close>

lemma collect_rms_values_eq:
  "collect_rms_values tf lines acc =
     acc @ filter (\<lambda>v. - 100 < v) (List.map_filter (rms_level_of_line tf) lines)"
  by (induction lines arbitrary: acc) (auto simp: List.map_filter_simps split: option.splits)

lemma tenth_index: "py_int (real n / 10) = int (n div 10)"
proof -
  have "\<lfloor>real n / real 10\<rfloor> = int (n div 10)"
    by (rule floor_divide_of_nat_eq)
  then show ?thesis by (simp add: py_int_def)
qed

lemma tenth_floor: "\<lfloor>real n / 10\<rfloor> = int (n div 10)"
proof -
  have "\<lfloor>real n / real 10\<rfloor> = int (n div 10)"
    by (rule floor_divide_of_nat_eq)
  then show ?thesis by simp
qed

lemma noise_floor_of_values_eq:
  "noise_floor_of_values vs = (if vs = [] then Inr (- 60) else Inr (sort vs ! (length vs div 10)))"
proof (cases "vs = []")
  case True
  then show ?thesis by (simp add: noise_floor_of_values_def)
next
  case False
  then have "length vs div 10 < length vs" by simp
  with False show ?thesis
    by (simp add: noise_floor_of_values_def tenth_index py_index_def Let_def)
qed

section \<open>Lemmas: report generation\<close>

lemma and_then_Inr_iff: "and_then m f = Inr r \<longleftrightarrow> (\<exists>x. m = Inr x \<and> f x = Inr r)"
  by (cases m) (simp_all add: and_then_def)

lemma and_then_simps [simp]: "and_then (Inr x) f = f x" "and_then (Inl e) f = Inl e"
  by (simp_all add: and_then_def)

lemma traverse_total: "(\<And>x. x \<in> set xs \<Longrightarrow> f x = Inr (g x)) \<Longrightarrow> traverse f xs = Inr (map g xs)"
  by (induction xs) auto

lemma traverse_Inr_all2: "traverse f xs = Inr ys \<Longrightarrow> list_all2 (\<lambda>x y. f x = Inr y) xs ys"
  by (induction xs arbitrary: ys) (auto split: sum.splits)

lemma traverse_succeeds: "(\<And>x. x \<in> set xs \<Longrightarrow> \<exists>y. f x = Inr y) \<Longrightarrow> \<exists>ys. traverse f xs = Inr ys"
proof (induction xs)
  case Nil
  then show ?case by simp
next
  case (Cons x xs)
  then obtain y ys where "f x = Inr y" "traverse f xs = Inr ys"
    by (meson list.set_intros)
  then show ?case by simp
qed

lemma traverse_fails: "x \<in> set xs \<Longrightarrow> f x = Inl e \<Longrightarrow> \<exists>e'. traverse f xs = Inl e'"
  by (induction xs) (auto split: sum.splits)

lemma insort_key_pairs:
  "\<forall>p\<in>set ps. fst p = g (snd p) \<Longrightarrow>
   map snd (insort_key fst (g x, x) ps) = insort_key g x (map snd ps)"
  by (induction ps) auto

lemma sort_key_pairs:
  "map snd (sort_key fst (map (\<lambda>x. (g x, x)) xs)) = sort_key g xs"
proof (induction xs)
  case Nil
  then show ?case by simp
next
  case (Cons x xs)
  have "\<forall>p\<in>set (sort_key fst (map (\<lambda>x. (g x, x)) xs)). fst p = g (snd p)"
    by auto
  then show ?case
    using Cons by (simp add: insort_key_pairs)
qed

lemma sorted_by_raising_total:
  assumes "\<And>x. x \<in> set xs \<Longrightarrow> k x = Inr (g x)"
  shows "sorted_by_raising k xs = Inr (sort_key g xs)"
proof -
  have "traverse (\<lambda>x. and_then (k x) (\<lambda>v. Inr (v, x))) xs = Inr (map (\<lambda>x. (g x, x)) xs)"
    by (rule traverse_total) (simp add: assms)
  then show ?thesis
    by (simp add: sorted_by_raising_def sorted_by_def sort_key_pairs)
qed

lemma has_service_find:
  "has_service svc e \<longleftrightarrow> find (\<lambda>t. service t = svc) (transcriptions e) \<noteq> None"
  by (auto simp: has_service_def list_ex_iff find_None_iff)

lemma next_wer_total: "has_service svc e \<Longrightarrow> next_wer svc e = Inr (wer_for svc e)"
  by (auto simp: has_service_find next_wer_def wer_for_def next_wer_or_none_def)

lemma by_wer_total:
  "sorted_by_raising (next_wer svc) (filter (has_service svc) evs)
     = Inr (sort_key (wer_for svc) (filter (has_service svc) evs))"
  by (rule sorted_by_raising_total) (simp add: next_wer_total)


lemma keys_add_to_category:
  "fst ` set (add_to_category cats e) = insert (category_or_unknown e) (fst ` set cats)"
  by (auto simp: add_to_category_def Let_def image_iff split: if_splits) force+

lemma keys_foldl_add:
  "fst ` set (foldl add_to_category cats evs) = fst ` set cats \<union> category_or_unknown ` set evs"
  by (induction evs arbitrary: cats) (auto simp: keys_add_to_category)

lemma keys_group_categories:
  "fst ` set (group_categories evs) = category_or_unknown ` set evs"
  by (simp add: group_categories_def keys_foldl_add)

lemma category_averages_succeeds:
  assumes "e \<in> set evs" "map_of (microphone e) ''category'' = Some (fst cd)"
  shows "\<exists>r. category_averages evs cd = Inr r"
proof -
  have "e \<in> set (filter (\<lambda>e. map_of (microphone e) ''category'' = Some (fst cd)) evs)"
    using assms by simp
  then have "filter (\<lambda>e. map_of (microphone e) ''category'' = Some (fst cd)) evs \<noteq> []"
    by (metis empty_iff empty_set)
  then show ?thesis
    by (simp add: category_averages_def Let_def)
qed

lemma analyze_categories_succeeds:
  assumes "categories_resolvable evs"
  shows "\<exists>cats. analyze_categories evs = Inr cats"
  unfolding analyze_categories_def
proof (rule traverse_succeeds)
  fix cd
  assume "cd \<in> set (group_categories evs)"
  then have "fst cd \<in> category_or_unknown ` set evs"
    using keys_group_categories [of evs] by (metis imageI)
  then obtain e where e: "e \<in> set evs" "fst cd = category_or_unknown e"
    by auto
  show "\<exists>y. category_averages evs cd = Inr y"
  proof (cases "map_of (microphone e) ''category''")
    case None
    with e have "fst cd = ''unknown''"
      by (simp add: category_or_unknown_def)
    moreover from None e(1) assms obtain e' where
      "e' \<in> set evs" "map_of (microphone e') ''category'' = Some ''unknown''"
      by (auto simp: categories_resolvable_def list_ex_iff)
    ultimately show ?thesis
      using category_averages_succeeds [of e' evs cd] by simp
  next
    case (Some c)
    with e show ?thesis
      using category_averages_succeeds [of e evs cd] by (simp add: category_or_unknown_def)
  qed
qed

lemma sort_key_Nil_iff: "sort_key f xs = [] \<longleftrightarrow> xs = []"
  by (metis length_sort length_0_conv)

lemma generate_report_Inr:
  assumes "generate_report env evs ref = Inr rep"
  shows "traverse quality_entry_of (enumerate 0 (sorted_by_reverse audio_quality_score evs))
           = Inr (by_audio_quality (rankings rep))"
    and "traverse (wer_entry_of local_service)
           (enumerate 0 (sort_key (wer_for local_service) (filter (has_service local_service) evs)))
           = Inr (by_local_whisper_wer (rankings rep))"
    and "filter (has_service openai_service) evs = [] \<Longrightarrow> by_openai_whisper_wer (rankings rep) = None"
    and "filter (has_service openai_service) evs \<noteq> [] \<Longrightarrow>
           \<exists>oe. by_openai_whisper_wer (rankings rep) = Some oe
               \<and> traverse (wer_entry_of openai_service)
                    (enumerate 0 (sort_key (wer_for openai_service)
                       (filter (has_service openai_service) evs))) = Inr oe"
    and "analyze_categories evs = Inr (category_analysis rep)"
    and "detailed_results rep = map detailed_result_of evs"
    and "summary rep = \<lparr>total_samples = length evs,
                         reference_text_words = length (split ref),
                         openai_api_available = (OPENAI_API_KEY env \<noteq> None)\<rparr>"
  using assms
  unfolding generate_report_def by_wer_total Let_def
  by (auto simp: and_then_Inr_iff sort_key_Nil_iff split: if_splits)

lemma quality_entry_of_labelled:
  "labelled e \<Longrightarrow> \<exists>y. quality_entry_of (i, e) = Inr y"
  by (auto simp: labelled_def quality_entry_of_def microphone_label_def)

lemma wer_entry_of_labelled:
  "labelled e \<Longrightarrow> has_service svc e \<Longrightarrow> \<exists>y. wer_entry_of svc (i, e) = Inr y"
  by (auto simp: labelled_def wer_entry_of_def microphone_label_def next_wer_total)

lemma in_set_enumerate_snd: "p \<in> set (enumerate n xs) \<Longrightarrow> snd p \<in> set xs"
  by (metis imageI list.set_map map_snd_enumerate)

lemma generate_report_succeeds:
  assumes lab: "\<forall>e\<in>set evs. labelled e" and cats: "categories_resolvable evs"
  shows "\<exists>rep. generate_report env evs ref = Inr rep"
proof -
  obtain cs where cs: "analyze_categories evs = Inr cs"
    using analyze_categories_succeeds [OF cats] by blast
  have "\<exists>ys. traverse quality_entry_of (enumerate 0 (sorted_by_reverse audio_quality_score evs)) = Inr ys"
  proof (rule traverse_succeeds)
    fix p assume "p \<in> set (enumerate 0 (sorted_by_reverse audio_quality_score evs))"
    then have "snd p \<in> set evs"
      using in_set_enumerate_snd by (fastforce simp: sorted_by_reverse_def)
    then show "\<exists>y. quality_entry_of p = Inr y"
      using lab quality_entry_of_labelled [of "snd p" "fst p"] by simp
  qed
  then obtain qs where qs: "traverse quality_entry_of (enumerate 0 (sorted_by_reverse audio_quality_score evs)) = Inr qs"
    by blast
  have wer: "\<exists>ys. traverse (wer_entry_of svc)
                (enumerate 0 (sort_key (wer_for svc) (filter (has_service svc) evs))) = Inr ys" for svc
  proof (rule traverse_succeeds)
    fix p assume "p \<in> set (enumerate 0 (sort_key (wer_for svc) (filter (has_service svc) evs)))"
    then have "snd p \<in> set evs \<and> has_service svc (snd p)"
      using in_set_enumerate_snd by fastforce
    then show "\<exists>y. wer_entry_of svc p = Inr y"
      using lab wer_entry_of_labelled [of "snd p" svc "fst p"] by simp
  qed
  obtain ls where ls: "traverse (wer_entry_of local_service)
      (enumerate 0 (sort_key (wer_for local_service) (filter (has_service local_service) evs))) = Inr ls"
    using wer by blast
  obtain os where os: "traverse (wer_entry_of openai_service)
      (enumerate 0 (sort_key (wer_for openai_service) (filter (has_service openai_service) evs))) = Inr os"
    using wer by blast
  show ?thesis
    unfolding generate_report_def by_wer_total Let_def
    by (simp add: cs qs ls os sort_key_Nil_iff)
qed

lemma quality_entry_fields:
  "quality_entry_of p = Inr y \<Longrightarrow>
   q_sample_id y = sample_id (snd p) \<and> q_rank y = Suc (fst p)
   \<and> q_score y = py_round (audio_quality_score (snd p)) 1"
  by (auto simp: quality_entry_of_def Let_def and_then_Inr_iff)

lemma wer_entry_fields:
  "has_service svc (snd p) \<Longrightarrow> wer_entry_of svc p = Inr y \<Longrightarrow>
   w_sample_id y = sample_id (snd p) \<and> w_rank y = Suc (fst p)
   \<and> w_wer_percent y = py_round (wer_for svc (snd p) * 100) 2"
  by (auto simp: wer_entry_of_def Let_def and_then_Inr_iff next_wer_total)

lemma ranks_enumerate: "map (\<lambda>p. Suc (fst p)) (enumerate 0 xs) = [1..<length xs + 1]"
proof -
  have "map (\<lambda>p. Suc (fst p)) (enumerate 0 xs) = map Suc (map fst (enumerate 0 xs))"
    by (simp only: map_map comp_def)
  also have "\<dots> = map Suc [0..<length xs]"
    by simp
  also have "\<dots> = [1..<length xs + 1]"
    by (simp add: map_Suc_upt)
  finally show ?thesis .
qed

lemma map_snd_enumerate_fun: "map (\<lambda>p. g (snd p)) (enumerate n xs) = map g xs"
  by (induction xs arbitrary: n) simp_all

lemma all2_project_on:
  "list_all2 (\<lambda>x y. f x = Inr y) xs ys \<Longrightarrow>
   (\<And>x y. x \<in> set xs \<Longrightarrow> f x = Inr y \<Longrightarrow> h y = g x) \<Longrightarrow> map h ys = map g xs"
  by (induction xs ys rule: list_all2_induct) auto

lemma quality_entries_project:
  assumes "traverse quality_entry_of (enumerate 0 order) = Inr entries"
  shows "map q_sample_id entries = map sample_id order"
    and "map q_rank entries = [1..<length order + 1]"
    and "map q_score entries = map (\<lambda>e. py_round (audio_quality_score e) 1) order"
proof -
  have a2: "list_all2 (\<lambda>p y. quality_entry_of p = Inr y) (enumerate 0 order) entries"
    using assms by (rule traverse_Inr_all2)
  have "map q_sample_id entries = map (\<lambda>p. sample_id (snd p)) (enumerate 0 order)"
    by (rule all2_project_on [OF a2]) (simp add: quality_entry_fields)
  then show "map q_sample_id entries = map sample_id order"
    by (simp only: map_snd_enumerate_fun)
  have "map q_rank entries = map (\<lambda>p. Suc (fst p)) (enumerate 0 order)"
    by (rule all2_project_on [OF a2]) (simp add: quality_entry_fields)
  then show "map q_rank entries = [1..<length order + 1]"
    by (simp add: ranks_enumerate)
  have "map q_score entries
          = map (\<lambda>p. py_round (audio_quality_score (snd p)) 1) (enumerate 0 order)"
    by (rule all2_project_on [OF a2]) (simp add: quality_entry_fields)
  then show "map q_score entries = map (\<lambda>e. py_round (audio_quality_score e) 1) order"
    by (simp only: map_snd_enumerate_fun [of "\<lambda>e. py_round (audio_quality_score e) 1"])
qed

lemma wer_entries_project:
  assumes tr: "traverse (wer_entry_of svc) (enumerate 0 order) = Inr entries"
      and has: "\<forall>e\<in>set order. has_service svc e"
  shows "map w_sample_id entries = map sample_id order"
    and "map w_rank entries = [1..<length order + 1]"
    and "map w_wer_percent entries = map (\<lambda>e. py_round (wer_for svc e * 100) 2) order"
proof -
  have a2: "list_all2 (\<lambda>p y. wer_entry_of svc p = Inr y) (enumerate 0 order) entries"
    using tr by (rule traverse_Inr_all2)
  have fields: "w_sample_id y = sample_id (snd p) \<and> w_rank y = Suc (fst p)
                \<and> w_wer_percent y = py_round (wer_for svc (snd p) * 100) 2"
    if "p \<in> set (enumerate 0 order)" "wer_entry_of svc p = Inr y" for p y
  proof -
    have "has_service svc (snd p)"
      using that(1) has in_set_enumerate_snd by blast
    then show ?thesis
      using that(2) by (rule wer_entry_fields)
  qed
  have "map w_sample_id entries = map (\<lambda>p. sample_id (snd p)) (enumerate 0 order)"
    by (rule all2_project_on [OF a2]) (simp add: fields)
  then show "map w_sample_id entries = map sample_id order"
    by (simp only: map_snd_enumerate_fun)
  have "map w_rank entries = map (\<lambda>p. Suc (fst p)) (enumerate 0 order)"
    by (rule all2_project_on [OF a2]) (simp add: fields)
  then show "map w_rank entries = [1..<length order + 1]"
    by (simp add: ranks_enumerate)
  have "map w_wer_percent entries
          = map (\<lambda>p. py_round (wer_for svc (snd p) * 100) 2) (enumerate 0 order)"
    by (rule all2_project_on [OF a2]) (simp add: fields)
  then show "map w_wer_percent entries = map (\<lambda>e. py_round (wer_for svc e * 100) 2) order"
    by (simp only: map_snd_enumerate_fun [of "\<lambda>e. py_round (wer_for svc e * 100) 2"])
qed

lemma sorted_by_reverse_props:
  "mset (sorted_by_reverse k xs) = mset xs"
  "sorted_wrt (\<lambda>a b. k b \<le> k a) (sorted_by_reverse k xs)"
  "filter (\<lambda>e. k e = c) (sorted_by_reverse k xs) = filter (\<lambda>e. k e = c) xs"
proof -
  show "mset (sorted_by_reverse k xs) = mset xs"
    by (simp add: sorted_by_reverse_def)
  have "sorted (map k (sort_key k (rev xs)))"
    by simp
  then have "sorted_wrt (\<lambda>a b. k a \<le> k b) (sort_key k (rev xs))"
    by (simp only: sorted_wrt_map)
  then show "sorted_wrt (\<lambda>a b. k b \<le> k a) (sorted_by_reverse k xs)"
    by (simp add: sorted_by_reverse_def sorted_wrt_rev)
  have "filter (\<lambda>e. k e = c) (sorted_by_reverse k xs)
          = rev (filter (\<lambda>e. k e = c) (sort_key k (rev xs)))"
    by (simp add: sorted_by_reverse_def rev_filter)
  also have "\<dots> = rev (filter (\<lambda>e. k e = c) (rev xs))"
    by (simp only: sort_key_stable)
  also have "\<dots> = filter (\<lambda>e. k e = c) xs"
    by (simp add: rev_filter)
  finally show "filter (\<lambda>e. k e = c) (sorted_by_reverse k xs) = filter (\<lambda>e. k e = c) xs" .
qed

lemma wer_section_props:
  assumes tr: "traverse (wer_entry_of svc)
                 (enumerate 0 (sort_key (wer_for svc) (filter (has_service svc) evs))) = Inr entries"
  shows "\<exists>order. mset order = mset (filter (has_service svc) evs)
           \<and> sorted (map (wer_for svc) order)
           \<and> (\<forall>c. filter (\<lambda>e. wer_for svc e = c) order
                    = filter (\<lambda>e. wer_for svc e = c) (filter (has_service svc) evs))
           \<and> map w_sample_id entries = map sample_id order
           \<and> map w_wer_percent entries = map (\<lambda>e. py_round (wer_for svc e * 100) 2) order
           \<and> map w_rank entries = [1..<length order + 1]"
proof -
  define order where "order = sort_key (wer_for svc) (filter (has_service svc) evs)"
  have has: "\<forall>e\<in>set order. has_service svc e"
    by (simp add: order_def)
  have tr': "traverse (wer_entry_of svc) (enumerate 0 order) = Inr entries"
    using tr by (simp only: order_def)
  have "mset order = mset (filter (has_service svc) evs)"
    unfolding order_def by (rule mset_sort)
  moreover have "sorted (map (wer_for svc) order)"
    by (simp add: order_def)
  moreover have "filter (\<lambda>e. wer_for svc e = c) order
                   = filter (\<lambda>e. wer_for svc e = c) (filter (has_service svc) evs)" for c
    unfolding order_def by (rule sort_key_stable)
  ultimately show ?thesis
    using wer_entries_project [OF tr' has] by blast
qed

section \<open>Lemmas: category analysis\<close>

lemma group_categories_snoc:
  "group_categories (evs @ [e]) = add_to_category (group_categories evs) e"
  by (simp add: group_categories_def)

lemma group_samples:
  "(c, d) \<in> set (group_categories evs) \<Longrightarrow>
   samples d = map sample_id (filter (\<lambda>e. category_or_unknown e = c) evs)"
proof (induction evs arbitrary: c d rule: rev_induct)
  case Nil
  then show ?case by (simp add: group_categories_def)
next
  case (snoc e evs)
  define cat where "cat = category_or_unknown e"
  define cats where "cats = group_categories evs"
  define cats1 where
    "cats1 = (if cat \<notin> fst ` set cats
              then cats @ [(cat, \<lparr>samples = [], avg_quality = 0, avg_wer = Some 0\<rparr>)]
              else cats)"
  have step: "group_categories (evs @ [e])
                = map (\<lambda>(c, d). if c = cat then (c, d\<lparr>samples := samples d @ [sample_id e]\<rparr>)
                                 else (c, d)) cats1"
    by (simp add: group_categories_snoc add_to_category_def Let_def cat_def cats_def cats1_def)
  from snoc.prems obtain c' d' where
    mem: "(c', d') \<in> set cats1"
    and upd: "(c, d) = (if c' = cat then (c', d'\<lparr>samples := samples d' @ [sample_id e]\<rparr>)
                        else (c', d'))"
    unfolding step by auto
  have old: "samples d' = map sample_id (filter (\<lambda>e. category_or_unknown e = c') evs)"
  proof (cases "(c', d') \<in> set cats")
    case True
    then show ?thesis
      using snoc.IH by (simp add: cats_def)
  next
    case False
    with mem have new: "cat \<notin> fst ` set cats" "c' = cat"
      "d' = \<lparr>samples = [], avg_quality = 0, avg_wer = Some 0\<rparr>"
      by (auto simp: cats1_def split: if_splits)
    from new(1) have "cat \<notin> category_or_unknown ` set evs"
      by (simp add: cats_def keys_group_categories)
    then have "filter (\<lambda>e. category_or_unknown e = cat) evs = []"
      by (auto simp: filter_empty_conv)
    with new show ?thesis by simp
  qed
  show ?case
  proof (cases "c' = cat")
    case True
    with upd have "c = cat" "samples d = samples d' @ [sample_id e]"
      by simp_all
    with old True show ?thesis
      by (simp add: cat_def)
  next
    case False
    with upd have "c = c'" "d = d'"
      by simp_all
    with old False show ?thesis
      by (simp add: cat_def)
  qed
qed

lemma category_averages_group:
  assumes keyed: "list_all (\<lambda>e. map_of (microphone e) ''category'' \<noteq> None) evs"
      and mem: "(c, d) \<in> set (group_categories evs)"
  shows "\<exists>d'. category_averages evs (c, d) = Inr (c, d')
           \<and> (let grp = filter (\<lambda>e. category_or_unknown e = c) evs;
                    ws = List.map_filter (next_wer_or_none local_service) grp
                in grp \<noteq> []
                   \<and> samples d' = map sample_id grp
                   \<and> avg_quality d' = sum_list (map audio_quality_score grp) / real (length grp)
                   \<and> avg_wer d' = (if ws = [] then None
                                    else Some (sum_list ws / real (length ws))))"
proof -
  have same: "filter (\<lambda>e. map_of (microphone e) ''category'' = Some c) evs
                = filter (\<lambda>e. category_or_unknown e = c) evs"
    using keyed
    by (intro filter_cong refl) (auto simp: list_all_iff category_or_unknown_def)
  have "c \<in> category_or_unknown ` set evs"
    using mem keys_group_categories [of evs] by force
  then have ne: "filter (\<lambda>e. category_or_unknown e = c) evs \<noteq> []"
    by (auto simp: filter_empty_conv)
  show ?thesis
    using ne group_samples [OF mem]
    by (simp add: category_averages_def same Let_def)
qed



lemma all2_right_member:
  "list_all2 P xs ys \<Longrightarrow> y \<in> set ys \<Longrightarrow> \<exists>x\<in>set xs. P x y"
  by (induction xs ys rule: list_all2_induct) auto

text \<open>
  When every sample carries a \<^verbatim>\<open>category\<close> key, the two loops agree on the groups: the
  category analysis succeeds, no group is empty, and each group's \<^verbatim>\<open>avg_quality\<close> is the
  mean score of its samples and its \<^verbatim>\<open>avg_wer\<close> the mean local error rate of those of
  its samples that have one, \<^verbatim>\<open>None\<close> when none has.
\<close>

lemma analyze_categories_means_when_keyed:
  assumes keyed: "list_all (\<lambda>e. map_of (microphone e) ''category'' \<noteq> None) evs"
  shows "\<exists>cats. analyze_categories evs = Inr cats
           \<and> fst ` set cats = category_or_unknown ` set evs
           \<and> (\<forall>(c, d)\<in>set cats.
                 let grp = filter (\<lambda>e. category_or_unknown e = c) evs;
                     ws = List.map_filter (next_wer_or_none local_service) grp
                 in grp \<noteq> []
                    \<and> samples d = map sample_id grp
                    \<and> avg_quality d = sum_list (map audio_quality_score grp) / real (length grp)
                    \<and> avg_wer d = (if ws = [] then None
                                    else Some (sum_list ws / real (length ws))))"
proof -
  have each: "\<exists>y. category_averages evs x = Inr y" if "x \<in> set (group_categories evs)" for x
    using category_averages_group [OF keyed, of "fst x" "snd x"] that by auto
  then obtain cats where cats: "analyze_categories evs = Inr cats"
    unfolding analyze_categories_def using traverse_succeeds by blast
  then have a2: "list_all2 (\<lambda>x y. category_averages evs x = Inr y) (group_categories evs) cats"
    unfolding analyze_categories_def by (rule traverse_Inr_all2)
  have fsts: "fst y = fst x" if "category_averages evs x = Inr y" for x y
    using that by (auto simp: category_averages_def Let_def split: if_splits)
  have "map fst cats = map fst (group_categories evs)"
    using a2 by (induction rule: list_all2_induct) (auto dest: fsts)
  then have keys: "fst ` set cats = category_or_unknown ` set evs"
    by (metis keys_group_categories list.set_map)
  have props: "let grp = filter (\<lambda>e. category_or_unknown e = c) evs;
                   ws = List.map_filter (next_wer_or_none local_service) grp
               in grp \<noteq> []
                  \<and> samples d = map sample_id grp
                  \<and> avg_quality d = sum_list (map audio_quality_score grp) / real (length grp)
                  \<and> avg_wer d = (if ws = [] then None
                                  else Some (sum_list ws / real (length ws)))"
    if "(c, d) \<in> set cats" for c d
  proof -
    from all2_right_member [OF a2 that] obtain c0 d0 where
      mem: "(c0, d0) \<in> set (group_categories evs)"
      and res: "category_averages evs (c0, d0) = Inr (c, d)"
      by auto
    from category_averages_group [OF keyed mem] res show ?thesis
      by auto
  qed
  show ?thesis
    using cats keys props by blast
qed

section \<open>Lemmas: the evaluation loop and the merge\<close>

lemma evaluate_sample_id: "evaluate_sample env s ref = Inr r \<Longrightarrow> sample_id r = s_id s"
  unfolding evaluate_sample_def Let_def
  by (auto simp: and_then_Inr_iff split: if_splits prod.splits)


lemma evaluate_loop_Inr:
  "evaluate_loop env ref ss st = Inr st' \<Longrightarrow>
   \<exists>fresh. fst st' = fst st @ fresh
     \<and> list_all2 (\<lambda>s r. evaluate_sample env s ref = Inr r)
          (filter (\<lambda>s. file_exists env (s_filename s)) ss) fresh
     \<and> snd st' = snd st @ map (\<lambda>s. Skipping (s_id s) (s_filename s))
                           (filter (\<lambda>s. \<not> file_exists env (s_filename s)) ss)"
proof (induction ss arbitrary: st)
  case Nil
  then show ?case by simp
next
  case (Cons s ss)
  show ?case
  proof (cases "file_exists env (s_filename s)")
    case True
    with Cons.prems obtain r where r: "evaluate_sample env s ref = Inr r"
      and rest: "evaluate_loop env ref ss (fst st @ [r], snd st) = Inr st'"
      by (auto split: sum.splits)
    from Cons.IH [OF rest] obtain fresh where
      "fst st' = (fst st @ [r]) @ fresh"
      "list_all2 (\<lambda>s r. evaluate_sample env s ref = Inr r)
          (filter (\<lambda>s. file_exists env (s_filename s)) ss) fresh"
      "snd st' = snd st @ map (\<lambda>s. Skipping (s_id s) (s_filename s))
                           (filter (\<lambda>s. \<not> file_exists env (s_filename s)) ss)"
      by auto
    with True r show ?thesis
      by (intro exI [of _ "r # fresh"]) simp
  next
    case False
    with Cons.prems have rest:
      "evaluate_loop env ref ss (fst st, snd st @ [Skipping (s_id s) (s_filename s)]) = Inr st'"
      by simp
    from Cons.IH [OF rest] False show ?thesis
      by auto
  qed
qed



lemma insort_key_map_commute:
  "map f (insort_key (\<lambda>x. k (f x)) a xs) = insort_key k (f a) (map f xs)"
  by (induction xs) simp_all

lemma sort_key_map_commute:
  "map f (sort_key (\<lambda>x. k (f x)) xs) = sort_key k (map f xs)"
  by (induction xs) (simp_all add: insort_key_map_commute)

lemma detailed_result_roundtrip:
  "py_round (d_audio_quality_score r) 1 = d_audio_quality_score r \<Longrightarrow>
   detailed_result_of (existing_eval r) = r"
  by (simp add: detailed_result_of_def existing_eval_def)

lemma detailed_sample_id: "d_sample_id (detailed_result_of e) = sample_id e"
  by (simp add: detailed_result_of_def)

lemma existing_sample_id: "sample_id (existing_eval r) = d_sample_id r"
  by (simp add: existing_eval_def)

lemma all2_ids:
  "list_all2 (\<lambda>s r. evaluate_sample env s ref = Inr r) ss fresh \<Longrightarrow>
   map sample_id fresh = map s_id ss"
  by (induction ss fresh rule: list_all2_induct) (auto dest: evaluate_sample_id)

lemma kept_outside_report:
  assumes inside: "\<forall>e\<in>set fresh. sample_id e \<in> ids"
      and outside: "\<forall>r\<in>set kept. d_sample_id r \<notin> ids"
      and rounded: "\<forall>r\<in>set kept. py_round (d_audio_quality_score r) 1 = d_audio_quality_score r"
  shows "filter (\<lambda>d. d_sample_id d \<notin> ids)
           (map detailed_result_of (sort_key sample_id (fresh @ map existing_eval kept)))
         = sort_key d_sample_id kept"
proof -
  have f1: "filter (\<lambda>e. sample_id e \<notin> ids) fresh = []"
    using inside by (simp add: filter_empty_conv)
  have f2: "filter (\<lambda>e. sample_id e \<notin> ids) (map existing_eval kept) = map existing_eval kept"
    using outside by (simp add: filter_id_conv existing_sample_id)
  have "filter (\<lambda>d. d_sample_id d \<notin> ids)
          (map detailed_result_of (sort_key sample_id (fresh @ map existing_eval kept)))
        = map detailed_result_of
            (filter (\<lambda>e. sample_id e \<notin> ids) (sort_key sample_id (fresh @ map existing_eval kept)))"
    by (simp add: filter_map comp_def detailed_sample_id)
  also have "\<dots> = map detailed_result_of (sort_key sample_id (map existing_eval kept))"
    by (simp only: filter_sort filter_append f1 f2 append_Nil)
  also have "\<dots> = map detailed_result_of
                     (sort_key (\<lambda>e. d_sample_id (detailed_result_of e)) (map existing_eval kept))"
    by (simp only: detailed_sample_id)
  also have "\<dots> = sort_key d_sample_id (map detailed_result_of (map existing_eval kept))"
    by (rule sort_key_map_commute)
  also have "map detailed_result_of (map existing_eval kept) = kept"
    using rounded by (simp add: map_idI detailed_result_roundtrip)
  finally show ?thesis .
qed

section \<open>The quality score\<close>

text \<open>
  Claim C1. For every AudioMetrics value, whatever its levels and ratios and whether its
  optional fields are present or absent, \<open>calculate_audio_quality_score\<close> returns a value
  between 0 and 100. The function has no raising branch: it is a total function to the
  reals.
\<close>

theorem calculate_audio_quality_score_bounded:
  "0 \<le> calculate_audio_quality_score m \<and> calculate_audio_quality_score m \<le> 100"
  by (simp add: calculate_audio_quality_score_def Let_def)

text \<open>
  Claim C2. The claim gives 5 points to a signal-to-noise ratio of exactly 0 dB, as to
  every present value below 10. The code tests the field's truthiness, so 0.0 takes the
  branch commented \<^verbatim>\<open># Unknown\<close> and earns 12 points: here on a recording at 48 kHz,
  24 bit, mean level -30 dB equal to its noise floor, whose score is 74 where the
  claim's table gives 67.
\<close>

theorem snr_points_zero_db_scored_as_unknown:
  "snr_points snr_zero_metrics = 12
   \<and> snr_points (snr_zero_metrics\<lparr>estimated_snr_db := Some (1 / 100)\<rparr>) = 5
   \<and> snr_points (snr_zero_metrics\<lparr>estimated_snr_db := None\<rparr>) = 12
   \<and> calculate_audio_quality_score snr_zero_metrics = 74"
  by (simp add: snr_points_def snr_zero_metrics_def calculate_audio_quality_score_def
      sample_rate_points_def bit_depth_points_def rms_points_def clipping_points_def
      dynamic_range_points_def)

section \<open>Merging with a previous report\<close>

text \<open>
  Claim C3, as amended. A run in merge mode over a target subset \<open>sample_ids\<close>, with a
  previous report whose detailed results are \<open>stored\<close>, that ends with a report: the
  evaluation list holds the fresh evaluations, all of them of samples in the subset, and
  the previous entries of samples outside the subset, rebuilt field by field, and
  nothing else; it is sorted by sample id when at least one previous entry is kept, and
  is the fresh list in metadata order when none is; the report's entries for samples
  outside the subset are exactly the kept previous entries (whose scores are already
  rounded to one decimal, as every written report's are); and the outcome is the same
  for every previous report that agrees with this one outside the subset.
\<close>

theorem merge_subset_report:
  assumes run: "main env metadata reference_file (Some sample_ids) True (Some stored)
                  = Inr (rep, notes)"
  shows "let kept = filter (\<lambda>r. d_sample_id r \<notin> set sample_ids) stored;
             reference_text = get_reference_text reference_file
         in \<exists>fresh merged.
              evaluate_loop env reference_text
                (filter (\<lambda>s. s_id s \<in> set sample_ids) metadata) ([], []) = Inr (fresh, notes)
            \<and> list_all (\<lambda>e. sample_id e \<in> set sample_ids) fresh
            \<and> main_evaluations env metadata reference_text (Some sample_ids) True (Some stored)
                = Inr (merged, notes)
            \<and> mset merged = mset fresh + mset (map existing_eval kept)
            \<and> (kept \<noteq> [] \<longrightarrow> sorted (map sample_id merged))
            \<and> (kept = [] \<longrightarrow> merged = fresh)
            \<and> detailed_results rep = map detailed_result_of merged
            \<and> (list_all (\<lambda>r. py_round (d_audio_quality_score r) 1 = d_audio_quality_score r) kept
                 \<longrightarrow> filter (\<lambda>d. d_sample_id d \<notin> set sample_ids) (detailed_results rep)
                      = sort_key d_sample_id kept)
            \<and> (\<forall>stored'. filter (\<lambda>r. d_sample_id r \<notin> set sample_ids) stored' = kept
                 \<longrightarrow> main env metadata reference_file (Some sample_ids) True (Some stored')
                      = Inr (rep, notes))"
proof -
  define kept where "kept = filter (\<lambda>r. d_sample_id r \<notin> set sample_ids) stored"
  define reference_text where "reference_text = get_reference_text reference_file"
  define todo where "todo = filter (\<lambda>s. s_id s \<in> set sample_ids) metadata"
  from run obtain st where
    st: "main_evaluations env metadata reference_text (Some sample_ids) True (Some stored) = Inr st"
    and gen: "generate_report env (fst st) reference_text = Inr rep"
    and nt: "snd st = notes"
    by (auto simp: main_def Let_def reference_text_def and_then_Inr_iff)
  from st obtain st0 where
    loop: "evaluate_loop env reference_text todo ([], []) = Inr st0"
    and merged: "fst st = merge_existing True kept (fst st0)"
    and notes0: "snd st = snd st0"
    by (auto simp: main_evaluations_def Let_def and_then_Inr_iff samples_to_evaluate_def
        existing_detailed_results_def kept_def todo_def)
  define fresh where "fresh = fst st0"
  define merged_list where "merged_list = fst st"
  have loop': "evaluate_loop env reference_text todo ([], []) = Inr (fresh, notes)"
    using loop notes0 nt by (simp add: fresh_def)
  from evaluate_loop_Inr [OF loop] have
    a2: "list_all2 (\<lambda>s r. evaluate_sample env s reference_text = Inr r)
           (filter (\<lambda>s. file_exists env (s_filename s)) todo) fresh"
    by (auto simp: fresh_def)
  have ids: "map sample_id fresh = map s_id (filter (\<lambda>s. file_exists env (s_filename s)) todo)"
    using a2 by (rule all2_ids)
  have inside: "\<forall>e\<in>set fresh. sample_id e \<in> set sample_ids"
  proof
    fix e assume "e \<in> set fresh"
    then have "sample_id e \<in> set (map sample_id fresh)" by simp
    then show "sample_id e \<in> set sample_ids"
      unfolding ids by (auto simp: todo_def)
  qed
  have outside: "\<forall>r\<in>set kept. d_sample_id r \<notin> set sample_ids"
    by (simp add: kept_def)
  have m: "merged_list = merge_existing True kept fresh"
    using merged by (simp add: merged_list_def fresh_def)
  have st_eq: "main_evaluations env metadata reference_text (Some sample_ids) True (Some stored)
                 = Inr (merged_list, notes)"
    using st nt by (cases st) (simp add: merged_list_def)
  have ms: "mset merged_list = mset fresh + mset (map existing_eval kept)"
    by (simp add: m merge_existing_def)
  have srt: "sorted (map sample_id merged_list)" if "kept \<noteq> []"
    using that by (simp add: m merge_existing_def)
  have same: "merged_list = fresh" if "kept = []"
    using that by (simp add: m merge_existing_def)
  have det: "detailed_results rep = map detailed_result_of merged_list"
    using generate_report_Inr(6) [OF gen] by (simp add: merged_list_def)
  have unchanged: "filter (\<lambda>d. d_sample_id d \<notin> set sample_ids) (detailed_results rep)
                     = sort_key d_sample_id kept"
    if "list_all (\<lambda>r. py_round (d_audio_quality_score r) 1 = d_audio_quality_score r) kept"
  proof (cases "kept = []")
    case True
    then show ?thesis
      using inside by (simp add: det same filter_empty_conv detailed_sample_id)
  next
    case False
    then have "merged_list = sort_key sample_id (fresh @ map existing_eval kept)"
      by (simp add: m merge_existing_def)
    then show ?thesis
      using kept_outside_report [OF inside outside] that
      by (simp add: det list_all_iff)
  qed
  have indep: "main env metadata reference_file (Some sample_ids) True (Some stored')
                 = Inr (rep, notes)"
    if "filter (\<lambda>r. d_sample_id r \<notin> set sample_ids) stored' = kept" for stored'
  proof -
    have "main env metadata reference_file (Some sample_ids) True (Some stored')
            = main env metadata reference_file (Some sample_ids) True (Some stored)"
      using that
      by (simp add: main_def main_evaluations_def existing_detailed_results_def kept_def)
    then show ?thesis using run by simp
  qed
  show ?thesis
    unfolding Let_def kept_def [symmetric] reference_text_def [symmetric] todo_def [symmetric]
    using loop' inside st_eq ms srt same det unchanged indep
    by (intro exI [of _ fresh] exI [of _ merged_list]) (simp add: list_all_iff)
qed

text \<open>
  The theorem at work: samples 1 and 2 are re-evaluated (sample 3 of the metadata is not
  in the subset), the previous report holds samples 5, 1 and 4. The new report lists
  1, 2, 4, 5, and its entries for 4 and 5 are the previous ones.
\<close>

theorem merge_subset_report_witness:
  "map_sum id (map d_sample_id \<circ> detailed_results \<circ> fst)
     (main bench_env [sample_b, sample_a, sample_missing] ''A b'' (Some [1, 2]) True
        (Some [stored_result 5 70, stored_result 1 50, stored_result 4 60])) = Inr [1, 2, 4, 5]
   \<and> map_sum id (\<lambda>p. filter (\<lambda>d. d_sample_id d \<notin> set [1, 2]) (detailed_results (fst p)))
     (main bench_env [sample_b, sample_a, sample_missing] ''A b'' (Some [1, 2]) True
        (Some [stored_result 5 70, stored_result 1 50, stored_result 4 60]))
     = Inr [stored_result 4 60, stored_result 5 70]"
proof -
  let ?run = "main bench_env [sample_b, sample_a, sample_missing] ''A b'' (Some [1, 2]) True
                (Some [stored_result 5 70, stored_result 1 50, stored_result 4 60])"
  have ids: "map_sum id (map d_sample_id \<circ> detailed_results \<circ> fst) ?run = Inr [1, 2, 4, 5]"
    by code_simp
  then obtain rep skipped where run: "?run = Inr (rep, skipped)"
    by (cases ?run) auto
  have kept: "filter (\<lambda>r. d_sample_id r \<notin> set [1, 2])
                [stored_result 5 70, stored_result 1 50, stored_result 4 60]
              = [stored_result 5 70, stored_result 4 60]"
    by (simp add: stored_result_def detailed_result_of_def evaluation_def)
  have rounded: "list_all (\<lambda>r. py_round (d_audio_quality_score r) 1 = d_audio_quality_score r)
                   [stored_result 5 70, stored_result 4 60]"
    by code_simp
  have srt: "sort_key d_sample_id [stored_result 5 70, stored_result 4 60]
               = [stored_result 4 60, stored_result 5 70]"
    by (simp add: stored_result_def detailed_result_of_def evaluation_def)
  from merge_subset_report [OF run] rounded
  have "filter (\<lambda>d. d_sample_id d \<notin> set [1, 2]) (detailed_results rep)
          = [stored_result 4 60, stored_result 5 70]"
    unfolding Let_def kept srt by blast
  with ids run show ?thesis by simp
qed

text \<open>
  Claim C3 as it was stated does not hold: it says that the merged list is always sorted
  by sample id. When the previous report holds no sample outside the subset, nothing is
  appended and the list is not sorted: with the metadata listing sample 2 before
  sample 1, the evaluations and the report's detailed results are in the order 2, 1.
\<close>

theorem merge_without_kept_entries_keeps_metadata_order:
  "map_sum id (map sample_id \<circ> fst)
     (main_evaluations bench_env [sample_b, sample_a] ''a b'' (Some [1, 2]) True
        (Some [stored_result 1 50, stored_result 2 50])) = Inr [2, 1]
   \<and> map_sum id (map d_sample_id \<circ> detailed_results \<circ> fst)
     (main bench_env [sample_b, sample_a] ''A b'' (Some [1, 2]) True
        (Some [stored_result 1 50, stored_result 2 50])) = Inr [2, 1]"
  by code_simp

section \<open>Rankings\<close>

text \<open>
  Claim C4, as amended. For every list of evaluations whose microphones carry the two
  label keys and whose categories resolve, the report is generated and its
  \<^verbatim>\<open>by_audio_quality\<close> ranking lists all samples in descending order of score; samples of
  equal score keep their order in the input list, which is ascending sample id when the
  input list is sorted by sample id; the rank of an entry is its position counted from 1.
\<close>

theorem by_audio_quality_stable_descending:
  assumes lab: "list_all labelled evaluations"
      and cats: "categories_resolvable evaluations"
  shows "\<exists>rep order.
           generate_report env evaluations reference_text = Inr rep
         \<and> mset order = mset evaluations
         \<and> sorted_wrt (\<lambda>a b. audio_quality_score b \<le> audio_quality_score a) order
         \<and> (\<forall>c. filter (\<lambda>e. audio_quality_score e = c) order
                  = filter (\<lambda>e. audio_quality_score e = c) evaluations)
         \<and> (sorted (map sample_id evaluations) \<longrightarrow>
              (\<forall>c. sorted (map sample_id (filter (\<lambda>e. audio_quality_score e = c) order))))
         \<and> map q_sample_id (by_audio_quality (rankings rep)) = map sample_id order
         \<and> map q_score (by_audio_quality (rankings rep))
             = map (\<lambda>e. py_round (audio_quality_score e) 1) order
         \<and> map q_rank (by_audio_quality (rankings rep)) = [1..<length evaluations + 1]"
proof -
  define order where "order = sorted_by_reverse audio_quality_score evaluations"
  obtain rep where rep: "generate_report env evaluations reference_text = Inr rep"
    using generate_report_succeeds [of evaluations env reference_text] lab cats
    by (auto simp: list_all_iff)
  have tr: "traverse quality_entry_of (enumerate 0 order) = Inr (by_audio_quality (rankings rep))"
    unfolding order_def by (rule generate_report_Inr(1) [OF rep])
  have m: "mset order = mset evaluations"
    unfolding order_def by (rule sorted_by_reverse_props(1))
  then have len: "length order = length evaluations"
    by (metis size_mset)
  have st: "filter (\<lambda>e. audio_quality_score e = c) order
              = filter (\<lambda>e. audio_quality_score e = c) evaluations" for c
    unfolding order_def by (rule sorted_by_reverse_props(3))
  have ties: "sorted (map sample_id (filter (\<lambda>e. audio_quality_score e = c) order))"
    if "sorted (map sample_id evaluations)" for c
    unfolding st using that by (rule sorted_filter)
  show ?thesis
    using rep m sorted_by_reverse_props(2) [of audio_quality_score evaluations] st ties
      quality_entries_project [OF tr] len
    unfolding order_def [symmetric] by (intro exI [of _ rep] exI [of _ order]) simp
qed

text \<open>
  The theorem at work on three evaluations, two of them with the same score.
\<close>

theorem by_audio_quality_stable_descending_witness:
  "list_all labelled tie_evaluations \<and> categories_resolvable tie_evaluations
   \<and> map_sum id (map q_rank \<circ> by_audio_quality \<circ> rankings)
        (generate_report bench_env tie_evaluations ''a b'') = Inr [1, 2, 3]"
proof -
  have lab: "list_all labelled tie_evaluations"
    by code_simp
  have cats: "categories_resolvable tie_evaluations"
    by code_simp
  have len: "[1..<length tie_evaluations + 1] = [1, 2, 3]"
    by code_simp
  from by_audio_quality_stable_descending [OF lab cats, of bench_env "''a b''"]
  obtain rep where "generate_report bench_env tie_evaluations ''a b'' = Inr rep"
    and "map q_rank (by_audio_quality (rankings rep)) = [1..<length tie_evaluations + 1]"
    by blast
  with lab cats len show ?thesis by simp
qed

text \<open>
  Claim C4 as it was stated does not hold: it says that samples of equal score are
  ordered by ascending sample id. Samples 2 and 1 have the same score, sample 2 comes
  first in the input list, and sample 2 is ranked before sample 1.
\<close>

theorem by_audio_quality_ties_in_input_order:
  "map_sum id (map q_sample_id \<circ> by_audio_quality \<circ> rankings)
     (generate_report bench_env tie_evaluations ''a b'') = Inr [3, 2, 1]
   \<and> map audio_quality_score tie_evaluations = [50, 50, 60]
   \<and> map sample_id tie_evaluations = [2, 1, 3]"
  by code_simp

text \<open>
  Claim C5, as amended. For every such list, the ranking of the local service is always
  a key of the rankings, empty when no sample has a local result; the ranking of the
  cloud service is a key exactly when some sample has a cloud result. Each ranking that
  is present holds exactly the samples with a result of its service, ascending by that
  service's error rate.
\<close>

theorem wer_ranking_sections:
  assumes lab: "list_all labelled evaluations"
      and cats: "categories_resolvable evaluations"
  shows "\<exists>rep. generate_report env evaluations reference_text = Inr rep
         \<and> ''by_local_whisper_wer'' \<in> set (ranking_keys (rankings rep))
         \<and> wer_ranking_of local_service evaluations (by_local_whisper_wer (rankings rep))
         \<and> (''by_openai_whisper_wer'' \<in> set (ranking_keys (rankings rep))
              \<longleftrightarrow> list_ex (has_service openai_service) evaluations)
         \<and> (\<forall>entries. by_openai_whisper_wer (rankings rep) = Some entries
              \<longrightarrow> wer_ranking_of openai_service evaluations entries)"
proof -
  obtain rep where rep: "generate_report env evaluations reference_text = Inr rep"
    using generate_report_succeeds [of evaluations env reference_text] lab cats
    by (auto simp: list_all_iff)
  note inv = generate_report_Inr [OF rep]
  have loc: "wer_ranking_of local_service evaluations (by_local_whisper_wer (rankings rep))"
    unfolding wer_ranking_of_def by (rule wer_section_props [OF inv(2)])
  have nonempty: "filter (has_service openai_service) evaluations \<noteq> []
                  \<longleftrightarrow> list_ex (has_service openai_service) evaluations"
    by (simp add: filter_empty_conv list_ex_iff)
  have key: "''by_openai_whisper_wer'' \<in> set (ranking_keys (rankings rep))
              \<longleftrightarrow> list_ex (has_service openai_service) evaluations"
  proof (cases "filter (has_service openai_service) evaluations = []")
    case True
    then show ?thesis
      using inv(3) nonempty by (simp add: ranking_keys_def)
  next
    case False
    then show ?thesis
      using inv(4) nonempty by (auto simp: ranking_keys_def)
  qed
  have opn: "wer_ranking_of openai_service evaluations entries"
    if "by_openai_whisper_wer (rankings rep) = Some entries" for entries
  proof (cases "filter (has_service openai_service) evaluations = []")
    case True
    then show ?thesis using inv(3) that by simp
  next
    case False
    then have "traverse (wer_entry_of openai_service)
                 (enumerate 0 (sort_key (wer_for openai_service)
                    (filter (has_service openai_service) evaluations))) = Inr entries"
      using inv(4) that by auto
    then show ?thesis
      unfolding wer_ranking_of_def by (rule wer_section_props)
  qed
  show ?thesis
    using rep loc key opn by (auto simp: ranking_keys_def)
qed

text \<open>
  The theorem at work on three evaluations: two with a local result, one of these with
  a cloud result as well, one with none.
\<close>

theorem wer_ranking_sections_witness:
  "list_all labelled wer_evaluations \<and> categories_resolvable wer_evaluations
   \<and> list_ex (has_service openai_service) wer_evaluations
   \<and> map_sum id (\<lambda>r. ''by_openai_whisper_wer'' \<in> set (ranking_keys (rankings r)))
        (generate_report bench_env wer_evaluations ''a b'') = Inr True"
proof -
  have lab: "list_all labelled wer_evaluations"
    by code_simp
  have cats: "categories_resolvable wer_evaluations"
    by code_simp
  have ex: "list_ex (has_service openai_service) wer_evaluations"
    by code_simp
  from wer_ranking_sections [OF lab cats, of bench_env "''a b''"]
  obtain rep where "generate_report bench_env wer_evaluations ''a b'' = Inr rep"
    and "''by_openai_whisper_wer'' \<in> set (ranking_keys (rankings rep))
           \<longleftrightarrow> list_ex (has_service openai_service) wer_evaluations"
    by blast
  with lab cats ex show ?thesis by simp
qed

text \<open>
  Claim C5 as it was stated does not hold for the local service: it says that a
  service's ranking is in the report only if some sample has a result of that service.
  With no evaluation at all, so with no local result, \<^verbatim>\<open>by_local_whisper_wer\<close> is still a
  key of the rankings.
\<close>

theorem local_ranking_present_without_results:
  "map_sum id (ranking_keys \<circ> rankings) (generate_report bench_env [] [])
     = Inr [''by_audio_quality'', ''by_local_whisper_wer'']
   \<and> \<not> list_ex (has_service local_service) []"
  by code_simp

section \<open>Failures while evaluating\<close>




section \<open>Determinism of the report\<close>

text \<open>
  Claim C7, as amended. The report is a function of the evaluation list, the reference
  text and one bit of ambient state, whether the variable \<^verbatim>\<open>OPENAI_API_KEY\<close> is set: two
  environments that agree on that bit give equal reports, and any two environments give
  reports that differ at most in the summary's \<^verbatim>\<open>openai_api_available\<close>.
\<close>

theorem report_reads_key_presence_only:
  "((OPENAI_API_KEY env1 = None \<longleftrightarrow> OPENAI_API_KEY env2 = None)
      \<longrightarrow> generate_report env1 evaluations reference_text
            = generate_report env2 evaluations reference_text)
   \<and> map_sum id (\<lambda>r. r\<lparr>summary := (summary r)\<lparr>openai_api_available := False\<rparr>\<rparr>)
        (generate_report env1 evaluations reference_text)
     = map_sum id (\<lambda>r. r\<lparr>summary := (summary r)\<lparr>openai_api_available := False\<rparr>\<rparr>)
        (generate_report env2 evaluations reference_text)"
proof -
  have flag: "generate_report env1 evaluations reference_text
                = generate_report env2 evaluations reference_text"
    if "OPENAI_API_KEY env1 = None \<longleftrightarrow> OPENAI_API_KEY env2 = None"
    using that by (simp add: generate_report_def)
  have rest: "map_sum id (\<lambda>r. r\<lparr>summary := (summary r)\<lparr>openai_api_available := False\<rparr>\<rparr>)
                (generate_report env evaluations reference_text)
              = map_sum id (\<lambda>r. r\<lparr>summary := (summary r)\<lparr>openai_api_available := False\<rparr>\<rparr>)
                (generate_report (env\<lparr>OPENAI_API_KEY := None\<rparr>) evaluations reference_text)"
    for env
    unfolding generate_report_def Let_def
    by (simp add: and_then_def split: sum.splits)
  have "generate_report (env1\<lparr>OPENAI_API_KEY := None\<rparr>) evaluations reference_text
          = generate_report (env2\<lparr>OPENAI_API_KEY := None\<rparr>) evaluations reference_text"
    by (simp add: generate_report_def)
  then show ?thesis
    using flag rest [of env1] rest [of env2] by simp
qed

text \<open>
  The theorem at work on two environments that differ in their collaborators and agree
  on the variable being unset.
\<close>

theorem report_reads_key_presence_only_witness:
  "OPENAI_API_KEY bench_env = None \<and> OPENAI_API_KEY astats_env = None
   \<and> generate_report bench_env tie_evaluations ''a b''
       = generate_report astats_env tie_evaluations ''a b''"
proof -
  have k: "OPENAI_API_KEY bench_env = None" "OPENAI_API_KEY astats_env = None"
    by (simp_all add: astats_env_def bench_env_def)
  from report_reads_key_presence_only [of bench_env astats_env tie_evaluations "''a b''"] k
  show ?thesis by simp
qed

text \<open>
  Claim C7 as it was stated does not hold: it says that the report does not depend on
  environment variables. The same (empty) evaluation list and reference text give two
  different reports when \<^verbatim>\<open>OPENAI_API_KEY\<close> is set and when it is not.
\<close>

theorem report_depends_on_api_key_variable:
  "generate_report (bench_env\<lparr>OPENAI_API_KEY := Some ''sk''\<rparr>) [] []
     \<noteq> generate_report bench_env [] []"
  by code_simp

section \<open>The noise floor\<close>

text \<open>
  Claim C8. Of the RMS values read from the output of the statistics filter, those at or
  below -100 are dropped. When none is left the noise floor is -60. Otherwise the values
  are sorted ascending and the one at index \<open>max 0 (floor (0.1 * N))\<close> is returned, an
  index that is always below the number \<open>N\<close> of values left.
\<close>

theorem estimate_noise_floor_percentile:
  assumes "run_astats env filepath = Inr stderr"
  shows "let valid = filter (\<lambda>v. - 100 < v)
                       (List.map_filter (rms_level_of_line (to_float env))
                          (split_on (CHR 0x0A) stderr));
             idx = nat (max 0 \<lfloor>(1 / 10) * real (length valid)\<rfloor>)
         in (valid = [] \<longrightarrow> estimate_noise_floor env filepath = Inr (- 60))
            \<and> (valid \<noteq> [] \<longrightarrow>
                  idx < length valid
                  \<and> estimate_noise_floor env filepath = Inr (sort valid ! idx))"
  using assms
  by (simp add: estimate_noise_floor_def and_then_def collect_rms_values_eq
      noise_floor_of_values_eq tenth_floor Let_def)

text \<open>
  The theorem at work: of the twelve windows of \<open>astats_output\<close> the silent one and the
  one at -120 are dropped, ten values are left, and the second smallest is the floor.
\<close>

theorem estimate_noise_floor_percentile_witness:
  "run_astats astats_env ''a.wav'' = Inr astats_output
   \<and> estimate_noise_floor astats_env ''a.wav'' = Inr (- 48)"
proof -
  have run: "run_astats astats_env ''a.wav'' = Inr astats_output"
    by (simp add: astats_env_def)
  have valid: "filter (\<lambda>v. - 100 < v)
                 (List.map_filter (rms_level_of_line (to_float astats_env))
                    (split_on (CHR 0x0A) astats_output))
               = [-31, -35, -52, -33, -48, -30, -32, -34, -36, -37]"
    by code_simp
  have srt: "sort [-31, -35, -52, -33, -48, -30, -32, -34, -36, -37 :: real]
               = [-52, -48, -37, -36, -35, -34, -33, -32, -31, -30]"
    by simp
  from estimate_noise_floor_percentile [OF run]
  have "estimate_noise_floor astats_env ''a.wav'' = Inr (- 48)"
    unfolding valid Let_def srt by simp
  with run show ?thesis by simp
qed

section \<open>Text normalisation\<close>

text \<open>
  The shape of the result, on strings of the code points U+0000..U+00FF: the words of
  the lowercased string joined by single spaces, a word being a maximal run of kept
  characters, and a kept character one of the class \<^verbatim>\<open>\w\<close> (alphanumeric or underscore)
  that is not whitespace. So the output holds only spaces and word characters that are
  not upper case, it neither starts nor ends with a space, and no two spaces are
  adjacent.
\<close>

theorem normalize_text_shape:
  "\<exists>ws. normalize_text s = join_space ws
      \<and> concat ws = filter (\<lambda>c. re_word c \<and> \<not> py_isspace c) (lower s)
      \<and> (\<forall>w\<in>set ws. w \<noteq> [] \<and> (\<forall>c\<in>set w. re_word c \<and> \<not> py_isspace c \<and> \<not> py_isupper c))
      \<and> (\<forall>c\<in>set (normalize_text s). c = CHR '' '' \<or> (re_word c \<and> \<not> py_isupper c))
      \<and> (normalize_text s \<noteq> [] \<longrightarrow>
            hd (normalize_text s) \<noteq> CHR '' '' \<and> last (normalize_text s) \<noteq> CHR '' '')
      \<and> successively (\<lambda>a b. \<not> double_space a b) (normalize_text s)"
proof -
  define t2 where "t2 = filter (\<lambda>c. re_word c \<or> py_isspace c) (lower s)"
  define ws where "ws = split t2"
  have out: "normalize_text s = join_space ws"
    by (simp add: normalize_text_def ws_def t2_def)
  have content: "concat ws = filter (\<lambda>c. re_word c \<and> \<not> py_isspace c) (lower s)"
    unfolding ws_def split_def concat_split_acc t2_def
    by (auto simp: filter_filter intro: filter_cong)
  have kept: "re_word c \<or> py_isspace c" "\<not> py_isupper c" if "c \<in> set t2" for c
    using that not_upper_lower_char by (auto simp: t2_def lower_def)
  have words: "w \<noteq> [] \<and> (\<forall>c\<in>set w. re_word c \<and> \<not> py_isspace c \<and> \<not> py_isupper c)"
    if "w \<in> set ws" for w
  proof -
    have a: "w \<noteq> [] \<and> (\<forall>c\<in>set w. \<not> py_isspace c)"
      using that split_acc_words [of "[]" w t2] by (simp add: ws_def split_def)
    have b: "set w \<subseteq> set t2"
      using that split_acc_subset [of w "[]" t2] by (simp add: ws_def split_def)
    show ?thesis using a b kept by blast
  qed
  have clean: "\<forall>w\<in>set ws. w \<noteq> [] \<and> CHR '' '' \<notin> set w"
    using words space_is_space by blast
  have chars: "c = CHR '' '' \<or> (re_word c \<and> \<not> py_isupper c)" if "c \<in> set (normalize_text s)" for c
    using that set_join_space [of ws] words unfolding out by blast
  have ends: "normalize_text s \<noteq> [] \<longrightarrow>
            hd (normalize_text s) \<noteq> CHR '' '' \<and> last (normalize_text s) \<noteq> CHR '' ''"
    using hd_join_space [OF clean] unfolding out by (cases ws) auto
  have single: "successively (\<lambda>a b. \<not> double_space a b) (normalize_text s)"
    unfolding out by (rule successively_join_space [OF clean])
  show ?thesis
    using out content words chars ends single by blast
qed

text \<open>
  The theorem at work on a string with capitals, punctuation, an underscore and a double
  space.
\<close>

theorem normalize_text_shape_witness:
  "normalize_text ''Hi,  you_2!'' = ''hi you_2''
   \<and> hd (normalize_text ''Hi,  you_2!'') \<noteq> CHR '' ''
   \<and> last (normalize_text ''Hi,  you_2!'') \<noteq> CHR '' ''"
proof -
  have ev: "normalize_text ''Hi,  you_2!'' = ''hi you_2''"
    by code_simp
  from normalize_text_shape [of "''Hi,  you_2!''"]
  have "normalize_text ''Hi,  you_2!'' \<noteq> [] \<longrightarrow>
          hd (normalize_text ''Hi,  you_2!'') \<noteq> CHR '' ''
          \<and> last (normalize_text ''Hi,  you_2!'') \<noteq> CHR '' ''"
    by blast
  with ev show ?thesis by simp
qed

text \<open>
  Claim C9. The claim has every character removed that is neither alphanumeric nor
  whitespace, and the comment in the source says the same: lowercase, remove punctuation,
  collapse whitespace. The underscore is punctuation, neither alphanumeric nor
  whitespace, and the code keeps it, because the class \<^verbatim>\<open>\w\<close> that the regular
  expression spares contains it: \<^verbatim>\<open>a_b\<close> comes back unchanged where the claim gives
  \<^verbatim>\<open>ab\<close>.
\<close>

theorem normalize_text_keeps_underscore:
  "normalize_text ''a_b'' = ''a_b''
   \<and> \<not> py_isalnum (CHR ''_'') \<and> \<not> py_isspace (CHR ''_'')"
  by code_simp

section \<open>Category analysis\<close>

text \<open>
  Claim C10. The claim takes the averages of a category over the samples of its group.
  The first loop files a sample without a \<^verbatim>\<open>category\<close> key under \<^verbatim>\<open>unknown\<close>; the second
  loop selects the samples of a category with \<^verbatim>\<open>get("category")\<close>, which is \<^verbatim>\<open>None\<close> for
  that sample, so it is in the group and not in the averages. Here the group
  \<^verbatim>\<open>unknown\<close> holds samples 1 and 2 with scores 10 and 20, and its average is 10, not 15;
  and when the uncategorised sample is alone, the division by the number of selected
  samples raises.
\<close>

theorem category_average_ignores_uncategorised_sample:
  "analyze_categories uncategorised_evaluations
     = Inr [(''unknown'', \<lparr>samples = [1, 2], avg_quality = 10, avg_wer = None\<rparr>)]
   \<and> map audio_quality_score uncategorised_evaluations = [10, 20]
   \<and> generate_report bench_env [evaluation 2 mic_uncategorised 20 []] ''a b''
       = Inl ZeroDivisionError"
  by code_simp

end
